theory Spec2Isabelle
  imports Complex_Main
begin

unbundle bit_operations_syntax

section \<open>Western Shooter: the simulation core of game.js\<close>

text \<open>
  The game object of \<^verbatim>\<open>class WesternShooter\<close> is embedded as a record that is passed
  through every method and returned updated. JavaScript numbers that count things
  (score, lives, bullets, wave counters, hit points) are \<open>int\<close>; timers, coordinates and
  the frame delta are \<open>real\<close>. Enemy objects are mutable and are captured by deferred
  callbacks, so they live in an explicit store: \<open>heap\<close> maps an object reference to the
  enemy record, and \<open>this.enemies\<close> is the list of references. \<open>Math.random()\<close> is an
  oracle: the sequence \<open>rng\<close> of its results and the position \<open>rngPos\<close> of the next one.
  \<open>setTimeout\<close> appends the callback to \<open>pending\<close>; a pending callback is run by
  \<open>timeout\<close>. Drawing code only reads the state and is left out.

  The code counts its timers down in IEEE doubles, the embedding in exact reals. The
  test that ends a countdown looks at the sign of one subtraction, which is the same in
  both; the value that many subtractions leave is not. So what is stated about a single
  step is stated exactly, and what is stated about the time that several frames add up
  to is stated with a margin around the timer's nominal length.
\<close>

subsection \<open>Constants\<close>

definition W :: real where "W = 480"
definition H :: real where "H = 720"
definition MAX_BULLETS :: int where "MAX_BULLETS = 6"
definition RELOAD_TIME :: real where "RELOAD_TIME = 2.0"
definition MAX_LIVES :: int where "MAX_LIVES = 3"
definition DOOR_CX :: real where "DOOR_CX = 412"

datatype cover_kind = Barrel | Table

record cover_slot =
  cover_id :: nat
  cover_x :: real
  cover_y :: real
  cover_w :: real
  cover_h :: real
  cover_type :: cover_kind

definition COVERS :: "cover_slot list" where
  "COVERS =
    [\<lparr>cover_id = 0, cover_x = 78, cover_y = 410, cover_w = 90, cover_h = 112, cover_type = Barrel\<rparr>,
     \<lparr>cover_id = 1, cover_x = 200, cover_y = 405, cover_w = 134, cover_h = 92, cover_type = Table\<rparr>,
     \<lparr>cover_id = 2, cover_x = 308, cover_y = 405, cover_w = 134, cover_h = 92, cover_type = Table\<rparr>,
     \<lparr>cover_id = 3, cover_x = 420, cover_y = 410, cover_w = 90, cover_h = 112, cover_type = Barrel\<rparr>]"

text \<open>\<^verbatim>\<open>OUTFITS.length\<close>; the colours themselves are only drawn.\<close>
definition OUTFITS_length :: nat where "OUTFITS_length = 3"

subsection \<open>Data\<close>

text \<open>\<^verbatim>\<open>this.state\<close>: 'intro' | 'playing' | 'gameover'.\<close>
datatype session = Intro | Playing | Gameover

text \<open>\<^verbatim>\<open>e.state\<close> of an enemy.\<close>
datatype phase = Entering | Hiding | Warning | Peeking | Shooting | Retreating | Dead

record enemy =
  coverId :: nat
  cover :: cover_slot
  hp :: int
  maxHp :: int
  outfit :: nat
  estate :: phase
  visible :: bool
  drawX :: real
  drawY :: real
  peekY :: real
  walkFrame :: int
  walkT :: real
  hideT :: real
  warnT :: real
  peekT :: real
  retreatT :: real
  deadT :: real
  shootT :: real

datatype particle_kind = Flash | Hole | Blood | Hit | EFlash

text \<open>A particle; \<open>pvel\<close> is \<open>(vx, vy)\<close>, present on blood particles only.\<close>
record particle =
  ptype :: particle_kind
  px :: real
  py :: real
  pvel :: "(real \<times> real) option"
  pt :: real

text \<open>The closures handed to \<^verbatim>\<open>setTimeout\<close>, with the enemy reference they capture.\<close>
datatype callback =
    ReloadCb
  | AdvanceWaveCb
  | RetreatCb nat
  | EnemyDamageCb nat
  | ShootHideCb nat
  | GameoverCb

record world =
  state :: session
  score :: int
  bestScore :: int
  lives :: int
  bullets :: int
  reloading :: bool
  reloadTimer :: real
  wave :: int
  waveSpawned :: int
  waveKills :: int
  waveEnemies :: int
  spawnTimer :: real
  spawnInterval :: real
  enemies :: "nat list"
  particles :: "particle list"
  doorSwing :: real
  hitFlash :: real
  waveBanner :: real
  lastT :: real
  time :: real
  heap :: "nat \<rightharpoonup> enemy"
  nextRef :: nat
  pending :: "(callback \<times> nat) list"
  rng :: "nat \<Rightarrow> real"
  rngPos :: nat

subsection \<open>Helpers\<close>

definition random :: "world \<Rightarrow> real \<times> world" where
  "random w = (rng w (rngPos w), w\<lparr>rngPos := Suc (rngPos w)\<rparr>)"

definition rand :: "real \<Rightarrow> real \<Rightarrow> world \<Rightarrow> real \<times> world" where
  "rand lo hi w = (case random w of (r, w') \<Rightarrow> (lo + r * (hi - lo), w'))"

definition clamp :: "'a::linorder \<Rightarrow> 'a \<Rightarrow> 'a \<Rightarrow> 'a" where
  "clamp v lo hi = (if v < lo then lo else if v > hi then hi else v)"

definition inRect :: "real \<Rightarrow> real \<Rightarrow> real \<Rightarrow> real \<Rightarrow> real \<Rightarrow> real \<Rightarrow> bool" where
  "inRect p_x p_y rx ry rw rh \<longleftrightarrow> p_x \<ge> rx \<and> p_x \<le> rx + rw \<and> p_y \<ge> ry \<and> p_y \<le> ry + rh"

text \<open>The hitbox \<open>(x, y, w, h)\<close> of an enemy.\<close>
definition enemyHitbox :: "enemy \<Rightarrow> real \<times> real \<times> real \<times> real" where
  "enemyHitbox e = (drawX e - 30, drawY e - 68, 60, 95)"

definition inHitbox :: "real \<Rightarrow> real \<Rightarrow> enemy \<Rightarrow> bool" where
  "inHitbox x y e = (case enemyHitbox e of (hx, hy, hw, hh) \<Rightarrow> inRect x y hx hy hw hh)"

definition pushParticle :: "particle \<Rightarrow> world \<Rightarrow> world" where
  "pushParticle p w = w\<lparr>particles := particles w @ [p]\<rparr>"

definition setTimeout :: "callback \<Rightarrow> nat \<Rightarrow> world \<Rightarrow> world" where
  "setTimeout cb ms w = w\<lparr>pending := pending w @ [(cb, ms)]\<rparr>"

definition setEnemy :: "nat \<Rightarrow> enemy \<Rightarrow> world \<Rightarrow> world" where
  "setEnemy a e w = w\<lparr>heap := (heap w)(a \<mapsto> e)\<rparr>"

text \<open>The enemy objects that a list of references denotes, in order.\<close>
fun deref :: "(nat \<rightharpoonup> enemy) \<Rightarrow> nat list \<Rightarrow> enemy list" where
  "deref h [] = []"
| "deref h (a # as) = (case h a of None \<Rightarrow> deref h as | Some e \<Rightarrow> e # deref h as)"

definition enemyObjs :: "world \<Rightarrow> enemy list" where
  "enemyObjs w = deref (heap w) (enemies w)"

subsection \<open>Game lifecycle\<close>

definition new_WesternShooter :: "(nat \<Rightarrow> real) \<Rightarrow> world" where
  "new_WesternShooter r =
    \<lparr>state = Intro, score = 0, bestScore = 0, lives = MAX_LIVES, bullets = MAX_BULLETS,
     reloading = False, reloadTimer = 0, wave = 1, waveSpawned = 0, waveKills = 0,
     waveEnemies = 5, spawnTimer = 2, spawnInterval = 3, enemies = [], particles = [],
     doorSwing = 0, hitFlash = 0, waveBanner = 0, lastT = 0, time = 0,
     heap = Map.empty, nextRef = 0, pending = [], rng = r, rngPos = 0\<rparr>"

definition startGame :: "world \<Rightarrow> world" where
  "startGame w =
    w\<lparr>state := Playing, score := 0, lives := MAX_LIVES, bullets := MAX_BULLETS,
      reloading := False, reloadTimer := 0, wave := 1, waveSpawned := 0, waveKills := 0,
      waveEnemies := 5, spawnTimer := 2, spawnInterval := 3, enemies := [], particles := [],
      doorSwing := 0, hitFlash := 0, waveBanner := 0\<rparr>"

definition triggerReload :: "world \<Rightarrow> world" where
  "triggerReload w =
    (if reloading w \<or> bullets w = MAX_BULLETS then w
     else w\<lparr>reloading := True, reloadTimer := RELOAD_TIME\<rparr>)"

definition advanceWave :: "world \<Rightarrow> world" where
  "advanceWave w =
    (if state w \<noteq> Playing then w
     else let n = wave w + 1 in
       w\<lparr>wave := n, waveSpawned := 0, waveKills := 0, waveEnemies := 5 + n * 2,
         spawnInterval := max 1.1 (3 - real_of_int n * 0.22), spawnTimer := 1.8,
         waveBanner := 2.6, enemies := []\<rparr>)"

definition takeDamage :: "world \<Rightarrow> world" where
  "takeDamage w =
    (if state w \<noteq> Playing then w
     else let w1 = w\<lparr>lives := max 0 (lives w - 1), hitFlash := 0.55\<rparr> in
       if lives w1 = 0
       then setTimeout GameoverCb 550 (w1\<lparr>bestScore := max (bestScore w1) (score w1)\<rparr>)
       else w1)"

subsection \<open>Shooting\<close>

text \<open>The loop pushing \<open>n\<close> blood particles; each draws \<open>vx\<close>, \<open>vy\<close> and \<open>t\<close> in this order.\<close>
fun blood :: "nat \<Rightarrow> real \<Rightarrow> real \<Rightarrow> world \<Rightarrow> world" where
  "blood 0 c_x c_y w = w"
| "blood (Suc n) c_x c_y w =
    (case rand (-2.5) 2.5 w of (vx, w1) \<Rightarrow>
     case rand (-3.5) (-0.5) w1 of (vy, w2) \<Rightarrow>
     case rand 0.35 0.7 w2 of (t, w3) \<Rightarrow>
       blood n c_x c_y
         (pushParticle \<lparr>ptype = Blood, px = c_x, py = c_y, pvel = Some (vx, vy), pt = t\<rparr> w3))"

definition damageEnemy :: "nat \<Rightarrow> world \<Rightarrow> world" where
  "damageEnemy a w =
    (case heap w a of
       None \<Rightarrow> w
     | Some e0 \<Rightarrow>
        let e = e0\<lparr>hp := hp e0 - 1\<rparr> in
        case enemyHitbox e of (hx, hy, hw, hh) \<Rightarrow>
        let c_x = hx + hw / 2;
            c_y = hy + hh / 2;
            w1 = blood 7 c_x c_y (setEnemy a e w);
            w2 = pushParticle \<lparr>ptype = Hit, px = c_x, py = c_y, pvel = None, pt = 0.22\<rparr> w1
        in
          if hp e \<le> 0 then
            let w3 = (setEnemy a (e\<lparr>estate := Dead, visible := True, deadT := 0.75\<rparr>) w2)
                       \<lparr>score := score w2 + 100 * wave w2, waveKills := waveKills w2 + 1\<rparr>
            in if waveKills w3 \<ge> waveEnemies w3 then setTimeout AdvanceWaveCb 2000 w3 else w3
          else
            setTimeout (RetreatCb a) 460
              (setEnemy a (e\<lparr>estate := Retreating, retreatT := 0.45\<rparr>) w2))"

text \<open>
  The \<^verbatim>\<open>for (const e of this.enemies)\<close> loop of \<^verbatim>\<open>fireAt\<close>: the first visible enemy
  whose hitbox holds the tap is damaged and the loop breaks. The result says whether
  there was a hit.
\<close>
fun fireLoop :: "real \<Rightarrow> real \<Rightarrow> nat list \<Rightarrow> world \<Rightarrow> bool \<times> world" where
  "fireLoop x y [] w = (False, w)"
| "fireLoop x y (a # as) w =
    (case heap w a of
       None \<Rightarrow> fireLoop x y as w
     | Some e \<Rightarrow>
        if \<not> visible e then fireLoop x y as w
        else if inHitbox x y e then (True, damageEnemy a w)
        else fireLoop x y as w)"

definition fireAt :: "real \<Rightarrow> real \<Rightarrow> world \<Rightarrow> world" where
  "fireAt x y w =
    (let w1 = w\<lparr>bullets := bullets w - 1\<rparr>;
         w2 = pushParticle \<lparr>ptype = Flash, px = W / 2, py = H - 145, pvel = None, pt = 0.14\<rparr> w1
     in case fireLoop x y (enemies w2) w2 of (hit, w3) \<Rightarrow>
       let w4 = (if \<not> hit
                 then pushParticle \<lparr>ptype = Hole, px = x, py = y, pvel = None, pt = 7\<rparr> w3
                 else w3)
       in if bullets w4 = 0 then setTimeout ReloadCb 350 w4 else w4)"

definition onTap :: "real \<Rightarrow> real \<Rightarrow> world \<Rightarrow> world" where
  "onTap x y w =
    (if state w = Intro then
       (if inRect x y (W / 2 - 125) (H / 2 + 90) 250 56 then startGame w else w)
     else if state w = Gameover then
       (if inRect x y (W / 2 - 110) (H * 0.67) 220 56 then startGame w else w)
     else if state w \<noteq> Playing then w
     else if inRect x y (W - 118) (H - 70) 108 34 then triggerReload w
     else if reloading w \<or> bullets w \<le> 0 then triggerReload w
     else fireAt x y w)"

subsection \<open>Enemies\<close>

definition enemyShoot :: "nat \<Rightarrow> world \<Rightarrow> world" where
  "enemyShoot a w =
    (case heap w a of
       None \<Rightarrow> w
     | Some e \<Rightarrow>
        if estate e = Dead then w
        else
          let w1 = setEnemy a (e\<lparr>estate := Shooting, shootT := 0.4\<rparr>) w;
              w2 = pushParticle
                     \<lparr>ptype = EFlash, px = drawX e - 24, py = drawY e + 8, pvel = None, pt = 0.14\<rparr> w1
          in setTimeout (ShootHideCb a) 720 (setTimeout (EnemyDamageCb a) 260 w2))"

definition spawnEnemy :: "world \<Rightarrow> world" where
  "spawnEnemy w =
    (let usedIds = map coverId (filter (\<lambda>e. estate e \<noteq> Dead) (enemyObjs w));
         free = filter (\<lambda>c. cover_id c \<notin> set usedIds) COVERS
     in if free = [] then w
        else
          case random w of (r1, w1) \<Rightarrow>
          let c = free ! nat \<lfloor>r1 * real (length free)\<rfloor>;
              coverTop = cover_y c - cover_h c / 2;
              peek = coverTop - 28
          in case random w1 of (r2, w2) \<Rightarrow>
          let e = \<lparr>coverId = cover_id c, cover = c,
                   hp = (if wave w2 \<ge> 3 then 2 else 1),
                   maxHp = (if wave w2 \<ge> 3 then 2 else 1),
                   outfit = nat \<lfloor>r2 * real OUTFITS_length\<rfloor>,
                   estate = Entering, visible = True,
                   drawX = DOOR_CX, drawY = peek, peekY = peek,
                   walkFrame = 0, walkT = 0,
                   hideT = 0, warnT = 0, peekT = 0, retreatT = 0, deadT = 0, shootT = 0\<rparr>;
              a = nextRef w2
          in (setEnemy a e w2)
               \<lparr>nextRef := Suc a, enemies := enemies w2 @ [a],
                waveSpawned := waveSpawned w2 + 1, doorSwing := 1\<rparr>)"

definition updateEnemy :: "nat \<Rightarrow> real \<Rightarrow> world \<Rightarrow> world" where
  "updateEnemy a dt w =
    (case heap w a of
       None \<Rightarrow> w
     | Some e \<Rightarrow>
        let spd = (115 + real_of_int (wave w) * 12) * dt in
        case estate e of
          Entering \<Rightarrow>
            let e1 = e\<lparr>walkT := walkT e + dt\<rparr>;
                e2 = (if walkT e1 > 0.14 then e1\<lparr>walkT := 0, walkFrame := walkFrame e1 XOR 1\<rparr>
                      else e1);
                dx = cover_x (cover e2) - drawX e2
            in if \<bar>dx\<bar> \<le> spd then
                 (case rand 0.4 1.2 w of (r, w1) \<Rightarrow>
                    setEnemy a (e2\<lparr>drawX := cover_x (cover e2), estate := Hiding,
                                   hideT := r, visible := False\<rparr>) w1)
               else setEnemy a (e2\<lparr>drawX := drawX e2 + sgn dx * spd\<rparr>) w
        | Hiding \<Rightarrow>
            let e1 = e\<lparr>hideT := hideT e - dt\<rparr>
            in if hideT e1 \<le> 0 then
                 (case rand 0.45 0.85 w of (r, w1) \<Rightarrow>
                    setEnemy a (e1\<lparr>estate := Warning, warnT := r, visible := True,
                                   drawY := peekY e1 + 30\<rparr>) w1)
               else setEnemy a e1 w
        | Warning \<Rightarrow>
            let e1 = e\<lparr>warnT := warnT e - dt,
                       drawY := peekY e + 28 + sin (time w * 13.3) * 5\<rparr>
            in if warnT e1 \<le> 0 then
                 (case rand 0.85 1.5 w of (r, w1) \<Rightarrow>
                    setEnemy a (e1\<lparr>estate := Peeking, peekT := r, drawY := peekY e1\<rparr>) w1)
               else setEnemy a e1 w
        | Peeking \<Rightarrow>
            let e1 = e\<lparr>peekT := peekT e - dt\<rparr>;
                w1 = setEnemy a e1 w
            in if peekT e1 \<le> 0 then enemyShoot a w1 else w1
        | Shooting \<Rightarrow> setEnemy a (e\<lparr>shootT := shootT e - dt\<rparr>) w
        | Retreating \<Rightarrow>
            let e1 = e\<lparr>retreatT := retreatT e - dt\<rparr>
            in setEnemy a (e1\<lparr>drawY := peekY e1 + (1 - clamp (retreatT e1 / 0.45) 0 1) * 35\<rparr>) w
        | Dead \<Rightarrow> setEnemy a (e\<lparr>deadT := deadT e - dt, drawY := drawY e + dt * 55\<rparr>) w)"

subsection \<open>Deferred callbacks\<close>

definition run_callback :: "callback \<Rightarrow> world \<Rightarrow> world" where
  "run_callback cb w =
    (case cb of
       ReloadCb \<Rightarrow> triggerReload w
     | AdvanceWaveCb \<Rightarrow> advanceWave w
     | RetreatCb a \<Rightarrow>
         (case heap w a of
            None \<Rightarrow> w
          | Some e \<Rightarrow>
             if estate e \<noteq> Dead then
               (case rand 1 2.5 w of (r, w1) \<Rightarrow>
                  setEnemy a (e\<lparr>estate := Hiding, hideT := r, visible := False\<rparr>) w1)
             else w)
     | EnemyDamageCb a \<Rightarrow>
         (case heap w a of
            None \<Rightarrow> w
          | Some e \<Rightarrow> if estate e \<noteq> Dead then takeDamage w else w)
     | ShootHideCb a \<Rightarrow>
         (case heap w a of
            None \<Rightarrow> w
          | Some e \<Rightarrow>
             if estate e \<noteq> Dead then
               (case rand 0.9 2 w of (r, w1) \<Rightarrow>
                  setEnemy a (e\<lparr>estate := Hiding, hideT := r, visible := False\<rparr>) w1)
             else w)
     | GameoverCb \<Rightarrow> w\<lparr>state := Gameover\<rparr>)"

text \<open>The \<open>i\<close>-th pending callback comes due: it leaves the pending list and runs.\<close>
definition timeout :: "nat \<Rightarrow> world \<Rightarrow> world" where
  "timeout i w =
    (if i < length (pending w)
     then run_callback (fst (pending w ! i))
            (w\<lparr>pending := take i (pending w) @ drop (Suc i) (pending w)\<rparr>)
     else w)"

subsection \<open>The simulation step\<close>

definition updateFx :: "real \<Rightarrow> world \<Rightarrow> world" where
  "updateFx dt w =
    (let w1 = w\<lparr>time := time w + dt\<rparr>;
         w2 = (if doorSwing w1 > 0 then w1\<lparr>doorSwing := max 0 (doorSwing w1 - dt * 1.5)\<rparr> else w1);
         w3 = (if hitFlash w2 > 0 then w2\<lparr>hitFlash := max 0 (hitFlash w2 - dt * 2.2)\<rparr> else w2)
     in if waveBanner w3 > 0 then w3\<lparr>waveBanner := waveBanner w3 - dt\<rparr> else w3)"

definition updateReload :: "real \<Rightarrow> world \<Rightarrow> world" where
  "updateReload dt w =
    (if reloading w then
       let w1 = w\<lparr>reloadTimer := reloadTimer w - dt\<rparr>
       in if reloadTimer w1 \<le> 0
          then w1\<lparr>reloading := False, reloadTimer := 0, bullets := MAX_BULLETS\<rparr>
          else w1
     else w)"

definition updateSpawn :: "real \<Rightarrow> world \<Rightarrow> world" where
  "updateSpawn dt w =
    (let active = int (length (filter (\<lambda>e. estate e \<noteq> Dead) (enemyObjs w)));
         maxActive = clamp (2 + \<lfloor>real_of_int (wave w) * 0.6\<rfloor>) 1 4
     in if active < maxActive \<and> waveSpawned w < waveEnemies w then
          let w1 = w\<lparr>spawnTimer := spawnTimer w - dt\<rparr>
          in if spawnTimer w1 \<le> 0 then
               (case rand 0 0.8 w1 of (r, w2) \<Rightarrow>
                  spawnEnemy (w2\<lparr>spawnTimer := spawnInterval w2 + r\<rparr>))
             else w1
        else w)"

definition isGone :: "world \<Rightarrow> nat \<Rightarrow> bool" where
  "isGone w a = (case heap w a of None \<Rightarrow> False | Some e \<Rightarrow> estate e = Dead \<and> deadT e \<le> 0)"

definition updateEnemies :: "real \<Rightarrow> world \<Rightarrow> world" where
  "updateEnemies dt w =
    (let w1 = fold (\<lambda>a. updateEnemy a dt) (enemies w) w
     in w1\<lparr>enemies := filter (\<lambda>a. \<not> isGone w1 a) (enemies w1)\<rparr>)"

definition updateParticle :: "real \<Rightarrow> particle \<Rightarrow> particle" where
  "updateParticle dt p =
    (let p1 = p\<lparr>pt := pt p - dt\<rparr>
     in case pvel p1 of
          None \<Rightarrow> p1
        | Some (vx, vy) \<Rightarrow> p1\<lparr>px := px p1 + vx, py := py p1 + vy, pvel := Some (vx, vy + 0.18)\<rparr>)"

definition updateParticles :: "real \<Rightarrow> world \<Rightarrow> world" where
  "updateParticles dt w =
    w\<lparr>particles := filter (\<lambda>p. pt p > 0) (map (updateParticle dt) (particles w))\<rparr>"

definition update :: "real \<Rightarrow> world \<Rightarrow> world" where
  "update dt w =
    (if state w \<noteq> Playing then w
     else updateParticles dt (updateEnemies dt (updateSpawn dt (updateReload dt (updateFx dt w)))))"

text \<open>One animation frame at timestamp \<open>t\<close> (milliseconds); rendering reads only.\<close>
definition loop :: "real \<Rightarrow> world \<Rightarrow> world" where
  "loop t w = (let dt = min ((t - lastT w) / 1000) 0.05 in update dt (w\<lparr>lastT := t\<rparr>))"

subsection \<open>Reachable states\<close>

text \<open>
  The game starts from the constructor with an oracle whose values lie in \<open>[0, 1)\<close>, as
  \<^verbatim>\<open>Math.random()\<close> promises. Then taps, animation frames (with timestamps that do not
  go back) and due callbacks arrive in any order.
\<close>

inductive reachable :: "world \<Rightarrow> bool" where
  reach_new: "(\<forall>i. 0 \<le> r i \<and> r i < 1) \<Longrightarrow> reachable (new_WesternShooter r)"
| reach_tap: "reachable w \<Longrightarrow> reachable (onTap x y w)"
| reach_frame: "reachable w \<Longrightarrow> lastT w \<le> t \<Longrightarrow> reachable (loop t w)"
| reach_timeout: "reachable w \<Longrightarrow> i < length (pending w) \<Longrightarrow> reachable (timeout i w)"

subsection \<open>Properties of states\<close>

text \<open>How many enemies of \<open>this.enemies\<close> that are not dead sit at cover slot \<open>c\<close>.\<close>
definition slotCount :: "nat \<Rightarrow> world \<Rightarrow> nat" where
  "slotCount c w = length (filter (\<lambda>e. estate e \<noteq> Dead \<and> coverId e = c) (enemyObjs w))"

text \<open>Every cover slot of \<open>COVERS\<close> holds an enemy that is not dead.\<close>
definition allSlotsOccupied :: "world \<Rightarrow> bool" where
  "allSlotsOccupied w \<longleftrightarrow>
     list_all (\<lambda>c. list_ex (\<lambda>e. estate e \<noteq> Dead \<and> coverId e = cover_id c) (enemyObjs w)) COVERS"

text \<open>The test that \<open>fireAt\<close> makes on one reference: a visible enemy whose hitbox holds the tap.\<close>
definition hits :: "real \<Rightarrow> real \<Rightarrow> (nat \<rightharpoonup> enemy) \<Rightarrow> nat \<Rightarrow> bool" where
  "hits x y h a = (case h a of None \<Rightarrow> False | Some e \<Rightarrow> visible e \<and> inHitbox x y e)"

text \<open>What one hit makes of an enemy object.\<close>
definition hitEnemy :: "enemy \<Rightarrow> enemy" where
  "hitEnemy e =
    (if hp e - 1 \<le> 0 then e\<lparr>hp := hp e - 1, estate := Dead, visible := True, deadT := 0.75\<rparr>
     else e\<lparr>hp := hp e - 1, estate := Retreating, retreatT := 0.45\<rparr>)"

text \<open>A dead enemy object has no hit points left.\<close>
definition enemy_ok :: "enemy \<Rightarrow> bool" where
  "enemy_ok e \<longleftrightarrow> (estate e = Dead \<longrightarrow> hp e \<le> 0)"

text \<open>
  What every mutation of an enemy object respects: the object keeps its cover slot
  for life, and an object that was in order stays in order and, once dead, stays dead.
\<close>
definition enemy_step :: "enemy \<Rightarrow> enemy \<Rightarrow> bool" where
  "enemy_step e e' \<longleftrightarrow>
     coverId e' = coverId e \<and>
     (enemy_ok e \<longrightarrow> enemy_ok e' \<and> (estate e = Dead \<longrightarrow> estate e' = Dead))"

text \<open>The store before and after a method that does not allocate.\<close>
definition heap_evolves :: "(nat \<rightharpoonup> enemy) \<Rightarrow> (nat \<rightharpoonup> enemy) \<Rightarrow> bool" where
  "heap_evolves h h' \<longleftrightarrow>
     (\<forall>a. case h a of None \<Rightarrow> h' a = None | Some e \<Rightarrow> (\<exists>e'. h' a = Some e' \<and> enemy_step e e'))"

text \<open>The allocated references are those below \<open>n\<close>, and every object is in order.\<close>
definition heap_ok :: "(nat \<rightharpoonup> enemy) \<Rightarrow> nat \<Rightarrow> bool" where
  "heap_ok h n \<longleftrightarrow> (\<forall>a. a \<in> dom h \<longleftrightarrow> a < n) \<and> (\<forall>a e. h a = Some e \<longrightarrow> enemy_ok e)"

text \<open>Two different listed enemies that are not dead have different cover slots.\<close>
definition slots_distinct :: "(nat \<rightharpoonup> enemy) \<Rightarrow> nat list \<Rightarrow> bool" where
  "slots_distinct h as \<longleftrightarrow>
     (\<forall>a \<in> set as. \<forall>b \<in> set as. \<forall>ea eb.
        a \<noteq> b \<and> h a = Some ea \<and> h b = Some eb \<and> estate ea \<noteq> Dead \<and> estate eb \<noteq> Dead
        \<longrightarrow> coverId ea \<noteq> coverId eb)"


text \<open>
  Well-formed states: the oracle stays in \<open>[0, 1)\<close>, the store is in order,
  \<open>this.enemies\<close> holds allocated references without repetition, and the listed
  enemies that are not dead sit at different cover slots.
\<close>
definition well_formed :: "world \<Rightarrow> bool" where
  "well_formed w \<longleftrightarrow>
     (\<forall>i. 0 \<le> rng w i \<and> rng w i < 1) \<and>
     heap_ok (heap w) (nextRef w) \<and>
     distinct (enemies w) \<and>
     (\<forall>a \<in> set (enemies w). a < nextRef w) \<and>
     slots_distinct (heap w) (enemies w)"

subsection \<open>Concrete runs\<close>

text \<open>\<open>n\<close> animation frames, each \<open>step\<close> milliseconds after the one before.\<close>
fun frames :: "nat \<Rightarrow> real \<Rightarrow> world \<Rightarrow> world" where
  "frames 0 step w = w"
| "frames (Suc n) step w = frames n step (loop (lastT w + step) w)"

text \<open>\<open>n\<close> taps at the same point.\<close>
fun taps :: "nat \<Rightarrow> real \<Rightarrow> real \<Rightarrow> world \<Rightarrow> world" where
  "taps 0 x y w = w"
| "taps (Suc n) x y w = taps n x y (onTap x y w)"







text \<open>The object at reference \<open>a\<close> changed by \<open>f\<close>: to set up a situation.\<close>
definition modEnemy :: "nat \<Rightarrow> (enemy \<Rightarrow> enemy) \<Rightarrow> world \<Rightarrow> world" where
  "modEnemy a f w = (case heap w a of None \<Rightarrow> w | Some e \<Rightarrow> setEnemy a (f e) w)"

definition r_half :: "nat \<Rightarrow> real" where
  "r_half = (\<lambda>_. 1 / 2)"

text \<open>A fresh game after the tap on ENTER THE BAR.\<close>
definition w_start :: world where
  "w_start = onTap 240 470 (new_WesternShooter r_half)"

text \<open>Two seconds of frames later: the first outlaw has just come through the door.\<close>
definition w_spawned :: world where
  "w_spawned = frames 40 50 w_start"

text \<open>The outlaw object of \<open>w_spawned\<close>.\<close>
definition e_spawned :: enemy where
  "e_spawned = \<lparr>coverId = 2, cover = COVERS ! 2, hp = 1, maxHp = 1, outfit = 1,
        estate = Entering, visible = True, drawX = 405.65, drawY = 331, peekY = 331,
        walkFrame = 0, walkT = 0.05, hideT = 0, warnT = 0, peekT = 0, retreatT = 0,
        deadT = 0, shootT = 0\<rparr>"

text \<open>A tap on the outlaw walking in, and a second tap on the same spot.\<close>
definition w_shot :: world where
  "w_shot = onTap 405.65 331 w_spawned"

definition w_shot_again :: world where
  "w_shot_again = onTap 405.65 331 w_shot"


definition w_peek :: world where
  "w_peek = modEnemy 0 (\<lambda>e. e\<lparr>drawX := cover_x (cover e), estate := Peeking, peekT := 0.05\<rparr>) w_spawned"

definition w_low :: world where
  "w_low = modEnemy 0 (\<lambda>e. e\<lparr>drawX := 420, drawY := 640\<rparr>) w_spawned"

text \<open>The peeking outlaw shoots in the next step, and is then shot before its bullet lands.\<close>
definition w_shooting :: world where
  "w_shooting = update 0.05 w_peek"

definition w_killed :: world where
  "w_killed = onTap 308 331 w_shooting"





text \<open>Four outlaws spawned at once: every cover slot is taken.\<close>
definition w_full :: world where
  "w_full = spawnEnemy (spawnEnemy (spawnEnemy (spawnEnemy w_start)))"

text \<open>Six shots into the wall, then the automatic reload comes due.\<close>
definition w_empty :: world where
  "w_empty = taps 6 10 10 w_start"

definition w_reloading :: world where
  "w_reloading = timeout 0 w_empty"

subsection \<open>What each method leaves alone\<close>

lemma rand_keeps [simp]:
  "bullets (snd (rand lo hi w)) = bullets w"
  "lives (snd (rand lo hi w)) = lives w"
  "wave (snd (rand lo hi w)) = wave w"
  "waveEnemies (snd (rand lo hi w)) = waveEnemies w"
  "state (snd (rand lo hi w)) = state w"
  "heap (snd (rand lo hi w)) = heap w"
  "enemies (snd (rand lo hi w)) = enemies w"
  "nextRef (snd (rand lo hi w)) = nextRef w"
  "rng (snd (rand lo hi w)) = rng w"
  by (simp_all add: rand_def random_def)

lemma pushParticle_keeps [simp]:
  "bullets (pushParticle p w) = bullets w"
  "lives (pushParticle p w) = lives w"
  "wave (pushParticle p w) = wave w"
  "waveEnemies (pushParticle p w) = waveEnemies w"
  "state (pushParticle p w) = state w"
  "heap (pushParticle p w) = heap w"
  "enemies (pushParticle p w) = enemies w"
  "nextRef (pushParticle p w) = nextRef w"
  "rng (pushParticle p w) = rng w"
  by (simp_all add: pushParticle_def)

lemma setTimeout_keeps [simp]:
  "bullets (setTimeout cb ms w) = bullets w"
  "lives (setTimeout cb ms w) = lives w"
  "wave (setTimeout cb ms w) = wave w"
  "waveEnemies (setTimeout cb ms w) = waveEnemies w"
  "state (setTimeout cb ms w) = state w"
  "heap (setTimeout cb ms w) = heap w"
  "enemies (setTimeout cb ms w) = enemies w"
  "nextRef (setTimeout cb ms w) = nextRef w"
  "rng (setTimeout cb ms w) = rng w"
  by (simp_all add: setTimeout_def)

lemma setEnemy_keeps [simp]:
  "bullets (setEnemy a e w) = bullets w"
  "lives (setEnemy a e w) = lives w"
  "wave (setEnemy a e w) = wave w"
  "waveEnemies (setEnemy a e w) = waveEnemies w"
  "state (setEnemy a e w) = state w"
  "heap (setEnemy a e w) = (heap w)(a \<mapsto> e)"
  "enemies (setEnemy a e w) = enemies w"
  "nextRef (setEnemy a e w) = nextRef w"
  "rng (setEnemy a e w) = rng w"
  by (simp_all add: setEnemy_def)

lemma blood_keeps [simp]:
  "bullets (blood n c_x c_y w) = bullets w"
  "lives (blood n c_x c_y w) = lives w"
  "wave (blood n c_x c_y w) = wave w"
  "waveEnemies (blood n c_x c_y w) = waveEnemies w"
  "state (blood n c_x c_y w) = state w"
  "heap (blood n c_x c_y w) = heap w"
  "enemies (blood n c_x c_y w) = enemies w"
  "nextRef (blood n c_x c_y w) = nextRef w"
  "rng (blood n c_x c_y w) = rng w"
  by (induction n arbitrary: w; simp add: split_beta)+

lemma damageEnemy_keeps [simp]:
  "bullets (damageEnemy a w) = bullets w"
  "lives (damageEnemy a w) = lives w"
  "wave (damageEnemy a w) = wave w"
  "waveEnemies (damageEnemy a w) = waveEnemies w"
  "state (damageEnemy a w) = state w"
  "enemies (damageEnemy a w) = enemies w"
  "nextRef (damageEnemy a w) = nextRef w"
  "rng (damageEnemy a w) = rng w"
  by (simp_all add: damageEnemy_def Let_def split_beta split: option.splits)

lemma fireLoop_keeps [simp]:
  "bullets (snd (fireLoop x y as w)) = bullets w"
  "lives (snd (fireLoop x y as w)) = lives w"
  "wave (snd (fireLoop x y as w)) = wave w"
  "waveEnemies (snd (fireLoop x y as w)) = waveEnemies w"
  "state (snd (fireLoop x y as w)) = state w"
  "enemies (snd (fireLoop x y as w)) = enemies w"
  "nextRef (snd (fireLoop x y as w)) = nextRef w"
  "rng (snd (fireLoop x y as w)) = rng w"
  by (induction as; simp split: option.splits)+

lemma fireAt_keeps [simp]:
  "bullets (fireAt x y w) = bullets w - 1"
  "lives (fireAt x y w) = lives w"
  "wave (fireAt x y w) = wave w"
  "waveEnemies (fireAt x y w) = waveEnemies w"
  "state (fireAt x y w) = state w"
  "enemies (fireAt x y w) = enemies w"
  "nextRef (fireAt x y w) = nextRef w"
  "rng (fireAt x y w) = rng w"
  by (simp_all add: fireAt_def Let_def split_beta)


lemma enemyShoot_keeps [simp]:
  "bullets (enemyShoot a w) = bullets w"
  "lives (enemyShoot a w) = lives w"
  "wave (enemyShoot a w) = wave w"
  "waveEnemies (enemyShoot a w) = waveEnemies w"
  "state (enemyShoot a w) = state w"
  "enemies (enemyShoot a w) = enemies w"
  "nextRef (enemyShoot a w) = nextRef w"
  "rng (enemyShoot a w) = rng w"
  by (simp_all add: enemyShoot_def Let_def split: option.splits)

lemma updateEnemy_keeps [simp]:
  "bullets (updateEnemy a dt w) = bullets w"
  "lives (updateEnemy a dt w) = lives w"
  "wave (updateEnemy a dt w) = wave w"
  "waveEnemies (updateEnemy a dt w) = waveEnemies w"
  "state (updateEnemy a dt w) = state w"
  "enemies (updateEnemy a dt w) = enemies w"
  "nextRef (updateEnemy a dt w) = nextRef w"
  "rng (updateEnemy a dt w) = rng w"
  by (simp_all add: updateEnemy_def Let_def split_beta split: option.splits phase.splits)

lemma fold_updateEnemy_keeps [simp]:
  "bullets (fold (\<lambda>a. updateEnemy a dt) as w) = bullets w"
  "lives (fold (\<lambda>a. updateEnemy a dt) as w) = lives w"
  "wave (fold (\<lambda>a. updateEnemy a dt) as w) = wave w"
  "waveEnemies (fold (\<lambda>a. updateEnemy a dt) as w) = waveEnemies w"
  "state (fold (\<lambda>a. updateEnemy a dt) as w) = state w"
  "enemies (fold (\<lambda>a. updateEnemy a dt) as w) = enemies w"
  "nextRef (fold (\<lambda>a. updateEnemy a dt) as w) = nextRef w"
  "rng (fold (\<lambda>a. updateEnemy a dt) as w) = rng w"
  by (induction as arbitrary: w; simp)+

lemma spawnEnemy_keeps [simp]:
  "bullets (spawnEnemy w) = bullets w"
  "lives (spawnEnemy w) = lives w"
  "wave (spawnEnemy w) = wave w"
  "waveEnemies (spawnEnemy w) = waveEnemies w"
  "state (spawnEnemy w) = state w"
  "rng (spawnEnemy w) = rng w"
  by (simp_all add: spawnEnemy_def random_def Let_def split_beta setEnemy_def)

lemma takeDamage_keeps [simp]:
  "bullets (takeDamage w) = bullets w"
  "wave (takeDamage w) = wave w"
  "waveEnemies (takeDamage w) = waveEnemies w"
  "state (takeDamage w) = state w"
  "heap (takeDamage w) = heap w"
  "enemies (takeDamage w) = enemies w"
  "nextRef (takeDamage w) = nextRef w"
  "rng (takeDamage w) = rng w"
  by (simp_all add: takeDamage_def Let_def)

lemma triggerReload_keeps [simp]:
  "bullets (triggerReload w) = bullets w"
  "lives (triggerReload w) = lives w"
  "wave (triggerReload w) = wave w"
  "waveEnemies (triggerReload w) = waveEnemies w"
  "state (triggerReload w) = state w"
  "heap (triggerReload w) = heap w"
  "enemies (triggerReload w) = enemies w"
  "nextRef (triggerReload w) = nextRef w"
  "rng (triggerReload w) = rng w"
  by (simp_all add: triggerReload_def)

lemma advanceWave_keeps [simp]:
  "bullets (advanceWave w) = bullets w"
  "lives (advanceWave w) = lives w"
  "state (advanceWave w) = state w"
  "heap (advanceWave w) = heap w"
  "nextRef (advanceWave w) = nextRef w"
  "rng (advanceWave w) = rng w"
  by (simp_all add: advanceWave_def Let_def)

lemma startGame_keeps [simp]:
  "heap (startGame w) = heap w"
  "nextRef (startGame w) = nextRef w"
  "rng (startGame w) = rng w"
  "enemies (startGame w) = []"
  "state (startGame w) = Playing"
  by (simp_all add: startGame_def)

lemma run_callback_keeps [simp]:
  "bullets (run_callback cb w) = bullets w"
  "nextRef (run_callback cb w) = nextRef w"
  "rng (run_callback cb w) = rng w"
  by (simp_all add: run_callback_def split_beta split: callback.splits option.splits)

lemma updateFx_keeps [simp]:
  "bullets (updateFx dt w) = bullets w"
  "lives (updateFx dt w) = lives w"
  "wave (updateFx dt w) = wave w"
  "waveEnemies (updateFx dt w) = waveEnemies w"
  "state (updateFx dt w) = state w"
  "heap (updateFx dt w) = heap w"
  "enemies (updateFx dt w) = enemies w"
  "nextRef (updateFx dt w) = nextRef w"
  "rng (updateFx dt w) = rng w"
  by (simp_all add: updateFx_def Let_def)

lemma updateReload_keeps [simp]:
  "lives (updateReload dt w) = lives w"
  "wave (updateReload dt w) = wave w"
  "waveEnemies (updateReload dt w) = waveEnemies w"
  "state (updateReload dt w) = state w"
  "heap (updateReload dt w) = heap w"
  "enemies (updateReload dt w) = enemies w"
  "nextRef (updateReload dt w) = nextRef w"
  "rng (updateReload dt w) = rng w"
  by (simp_all add: updateReload_def Let_def)

lemma updateSpawn_keeps [simp]:
  "bullets (updateSpawn dt w) = bullets w"
  "lives (updateSpawn dt w) = lives w"
  "wave (updateSpawn dt w) = wave w"
  "waveEnemies (updateSpawn dt w) = waveEnemies w"
  "state (updateSpawn dt w) = state w"
  "rng (updateSpawn dt w) = rng w"
  by (simp_all add: updateSpawn_def Let_def rand_def random_def)

lemma updateEnemies_keeps [simp]:
  "bullets (updateEnemies dt w) = bullets w"
  "lives (updateEnemies dt w) = lives w"
  "wave (updateEnemies dt w) = wave w"
  "waveEnemies (updateEnemies dt w) = waveEnemies w"
  "state (updateEnemies dt w) = state w"
  "nextRef (updateEnemies dt w) = nextRef w"
  "rng (updateEnemies dt w) = rng w"
  by (simp_all add: updateEnemies_def Let_def)

lemma updateParticles_keeps [simp]:
  "bullets (updateParticles dt w) = bullets w"
  "lives (updateParticles dt w) = lives w"
  "wave (updateParticles dt w) = wave w"
  "waveEnemies (updateParticles dt w) = waveEnemies w"
  "state (updateParticles dt w) = state w"
  "heap (updateParticles dt w) = heap w"
  "enemies (updateParticles dt w) = enemies w"
  "nextRef (updateParticles dt w) = nextRef w"
  "rng (updateParticles dt w) = rng w"
  by (simp_all add: updateParticles_def)

lemma update_keeps [simp]:
  "lives (update dt w) = lives w"
  "wave (update dt w) = wave w"
  "waveEnemies (update dt w) = waveEnemies w"
  "state (update dt w) = state w"
  "rng (update dt w) = rng w"
  by (simp_all add: update_def)

lemma loop_keeps [simp]:
  "lives (loop t w) = lives w"
  "wave (loop t w) = wave w"
  "waveEnemies (loop t w) = waveEnemies w"
  "state (loop t w) = state w"
  "rng (loop t w) = rng w"
  by (simp_all add: loop_def Let_def)

lemma timeout_keeps [simp]:
  "bullets (timeout i w) = bullets w"
  "nextRef (timeout i w) = nextRef w"
  "rng (timeout i w) = rng w"
  by (simp_all add: timeout_def)

lemma onTap_keeps [simp]:
  "heap (onTap x y w) = heap w \<or> state w = Playing"
  "nextRef (onTap x y w) = nextRef w"
  "rng (onTap x y w) = rng w"
  by (simp_all add: onTap_def)

lemma rand_keeps2 [simp]:
  "reloading (snd (rand lo hi w)) = reloading w"
  "spawnTimer (snd (rand lo hi w)) = spawnTimer w"
  "waveSpawned (snd (rand lo hi w)) = waveSpawned w"
  by (simp_all add: rand_def random_def)

lemma pushParticle_keeps2 [simp]:
  "reloading (pushParticle p w) = reloading w"
  "spawnTimer (pushParticle p w) = spawnTimer w"
  "waveSpawned (pushParticle p w) = waveSpawned w"
  by (simp_all add: pushParticle_def)

lemma setTimeout_keeps2 [simp]:
  "reloading (setTimeout cb ms w) = reloading w"
  "spawnTimer (setTimeout cb ms w) = spawnTimer w"
  "waveSpawned (setTimeout cb ms w) = waveSpawned w"
  by (simp_all add: setTimeout_def)

lemma setEnemy_keeps2 [simp]:
  "reloading (setEnemy a e w) = reloading w"
  "spawnTimer (setEnemy a e w) = spawnTimer w"
  "waveSpawned (setEnemy a e w) = waveSpawned w"
  by (simp_all add: setEnemy_def)

lemma enemyShoot_keeps2 [simp]:
  "reloading (enemyShoot a w) = reloading w"
  "spawnTimer (enemyShoot a w) = spawnTimer w"
  "waveSpawned (enemyShoot a w) = waveSpawned w"
  by (simp_all add: enemyShoot_def Let_def split: option.splits)

lemma updateEnemy_keeps2 [simp]:
  "reloading (updateEnemy a dt w) = reloading w"
  "spawnTimer (updateEnemy a dt w) = spawnTimer w"
  "waveSpawned (updateEnemy a dt w) = waveSpawned w"
  by (simp_all add: updateEnemy_def Let_def split_beta split: option.splits phase.splits)

lemma fold_updateEnemy_keeps2 [simp]:
  "reloading (fold (\<lambda>a. updateEnemy a dt) as w) = reloading w"
  "spawnTimer (fold (\<lambda>a. updateEnemy a dt) as w) = spawnTimer w"
  "waveSpawned (fold (\<lambda>a. updateEnemy a dt) as w) = waveSpawned w"
  by (induction as arbitrary: w; simp)+

lemma updateFx_keeps2 [simp]:
  "reloading (updateFx dt w) = reloading w"
  "reloadTimer (updateFx dt w) = reloadTimer w"
  "spawnTimer (updateFx dt w) = spawnTimer w"
  "waveSpawned (updateFx dt w) = waveSpawned w"
  by (simp_all add: updateFx_def Let_def)

lemma updateReload_keeps2 [simp]:
  "spawnTimer (updateReload dt w) = spawnTimer w"
  "waveSpawned (updateReload dt w) = waveSpawned w"
  by (simp_all add: updateReload_def Let_def)

lemma spawnEnemy_keeps2 [simp]:
  "reloading (spawnEnemy w) = reloading w"
  by (simp_all add: spawnEnemy_def random_def Let_def split_beta setEnemy_def)

lemma updateSpawn_keeps2 [simp]:
  "reloading (updateSpawn dt w) = reloading w"
  by (simp_all add: updateSpawn_def Let_def rand_def random_def)

lemma updateEnemies_keeps2 [simp]:
  "reloading (updateEnemies dt w) = reloading w"
  "spawnTimer (updateEnemies dt w) = spawnTimer w"
  "waveSpawned (updateEnemies dt w) = waveSpawned w"
  by (simp_all add: updateEnemies_def Let_def)

lemma updateParticles_keeps2 [simp]:
  "reloading (updateParticles dt w) = reloading w"
  "spawnTimer (updateParticles dt w) = spawnTimer w"
  "waveSpawned (updateParticles dt w) = waveSpawned w"
  by (simp_all add: updateParticles_def)


subsection \<open>The concrete runs, evaluated\<close>

lemma w_start_eq: "w_start = (new_WesternShooter r_half)\<lparr>state := Playing\<rparr>"
  by (simp add: w_start_def new_WesternShooter_def onTap_def startGame_def inRect_def W_def H_def MAX_LIVES_def MAX_BULLETS_def)

lemma idle_update:
  assumes "state w = Playing" "enemies w = []" "particles w = []" "\<not> reloading w"
    "doorSwing w \<le> 0" "hitFlash w \<le> 0" "waveBanner w \<le> 0" "waveSpawned w < waveEnemies w"
    "dt < spawnTimer w"
  shows "update dt w = w\<lparr>time := time w + dt, spawnTimer := spawnTimer w - dt\<rparr>"
  using assms
  by (simp add: update_def updateFx_def updateReload_def updateSpawn_def updateEnemies_def
      updateParticles_def enemyObjs_def clamp_def isGone_def Let_def)

lemma idle_frames:
  assumes "state w = Playing" "enemies w = []" "particles w = []" "\<not> reloading w"
    "doorSwing w \<le> 0" "hitFlash w \<le> 0" "waveBanner w \<le> 0" "waveSpawned w < waveEnemies w"
    "real n * 0.05 < spawnTimer w"
  shows "frames n 50 w = w\<lparr>lastT := lastT w + real n * 50, time := time w + real n * 0.05,
           spawnTimer := spawnTimer w - real n * 0.05\<rparr>"
  using assms
proof (induction n arbitrary: w)
  case 0
  then show ?case by simp
next
  case (Suc n)
  from Suc.prems have dt: "(0.05::real) < spawnTimer w"
    by (simp add: algebra_simps)
  have l: "loop (lastT w + 50) w = w\<lparr>lastT := lastT w + 50, time := time w + 0.05, spawnTimer := spawnTimer w - 0.05\<rparr>"
    using Suc.prems dt by (simp add: loop_def Let_def idle_update)
  have "frames n 50 (loop (lastT w + 50) w) = (loop (lastT w + 50) w)\<lparr>lastT := lastT (loop (lastT w + 50) w) + real n * 50,
      time := time (loop (lastT w + 50) w) + real n * 0.05, spawnTimer := spawnTimer (loop (lastT w + 50) w) - real n * 0.05\<rparr>"
    apply (rule Suc.IH)
    using Suc.prems by (simp_all add: l algebra_simps)
  then show ?case by (simp add: l algebra_simps)
qed

lemma w_39: "frames 39 50 w_start = w_start\<lparr>lastT := 1950, time := 1.95, spawnTimer := 0.05\<rparr>"
  by (subst idle_frames) (simp_all add: w_start_eq new_WesternShooter_def)

lemma frames_40: "frames 40 50 w = loop (lastT (frames 39 50 w) + 50) (frames 39 50 w)"
proof -
  have "\<And>w. frames (Suc n) 50 w = loop (lastT (frames n 50 w) + 50) (frames n 50 w)" for n
    by (induction n) simp_all
  from this[of 39 w] show ?thesis by simp
qed

lemma w_spawned_eq:
  "w_spawned = w_start\<lparr>lastT := 2000, time := 2, spawnTimer := 3.4, doorSwing := 1,
     waveSpawned := 1, rngPos := 3, nextRef := 1, enemies := [0], heap := [0 \<mapsto> e_spawned]\<rparr>"
  unfolding w_spawned_def frames_40 w_39 e_spawned_def
  by (simp add: w_start_eq new_WesternShooter_def loop_def update_def updateFx_def updateReload_def
      updateSpawn_def updateEnemies_def updateParticles_def updateEnemy_def spawnEnemy_def
      enemyObjs_def clamp_def rand_def random_def setEnemy_def COVERS_def OUTFITS_length_def
      DOOR_CX_def isGone_def Let_def r_half_def MAX_LIVES_def MAX_BULLETS_def)

lemmas tap_defs = onTap_def fireAt_def damageEnemy_def enemyHitbox_def inHitbox_def inRect_def
  pushParticle_def setTimeout_def setEnemy_def rand_def random_def Let_def W_def H_def
  MAX_BULLETS_def MAX_LIVES_def eval_nat_numeral

lemma w_shot_facts:
  "state w_shot = Playing" "bullets w_shot = 5" "reloading w_shot = False"
  "enemies w_shot = [0]" "score w_shot = 100" "waveKills w_shot = 1" "wave w_shot = 1" "waveEnemies w_shot = 5"
  "pending w_shot = []"
  "heap w_shot 0 = Some (e_spawned\<lparr>hp := 0, estate := Dead, deadT := 0.75\<rparr>)"
  unfolding w_shot_def w_spawned_eq
  by (simp_all add: w_start_eq new_WesternShooter_def tap_defs r_half_def e_spawned_def)

lemma w_shot_again_facts:
  "state w_shot_again = Playing" "bullets w_shot_again = 4"
  "enemies w_shot_again = [0]" "score w_shot_again = 200" "waveKills w_shot_again = 2"
  "heap w_shot_again 0 = Some (e_spawned\<lparr>hp := -1, estate := Dead, deadT := 0.75\<rparr>)"
  unfolding w_shot_again_def
  by (simp_all add: w_shot_facts tap_defs e_spawned_def)

lemma w_empty_facts:
  "state w_empty = Playing" "bullets w_empty = 0" "reloading w_empty = False" "pending w_empty = [(ReloadCb, 350)]"
  unfolding w_empty_def
  by (simp_all add: w_start_eq new_WesternShooter_def tap_defs)

lemma w_reloading_facts:
  "state w_reloading = Playing" "bullets w_reloading = 0" "reloading w_reloading = True" "reloadTimer w_reloading = 2"
  "pending w_reloading = []"
  unfolding w_reloading_def
  by (simp_all add: w_empty_facts timeout_def run_callback_def triggerReload_def MAX_BULLETS_def RELOAD_TIME_def)

lemma e_spawned_simps:
  "estate e_spawned = Entering" "visible e_spawned" "hp e_spawned = 1" "maxHp e_spawned = 1"
  "coverId e_spawned = 2" "drawX e_spawned = 405.65" "drawY e_spawned = 331" "cover_x (cover e_spawned) = 308"
  by (simp_all add: e_spawned_def COVERS_def)

lemma w_spawned_facts:
  "state w_spawned = Playing" "bullets w_spawned = 6" "reloading w_spawned = False"
  "enemies w_spawned = [0]" "score w_spawned = 0" "waveKills w_spawned = 0" "wave w_spawned = 1"
  "heap w_spawned 0 = Some e_spawned" "nextRef w_spawned = 1" "pending w_spawned = []"
  "waveSpawned w_spawned = 1" "spawnTimer w_spawned = 3.4"
  unfolding w_spawned_eq
  by (simp_all add: w_start_eq new_WesternShooter_def MAX_BULLETS_def)


lemma w_peek_facts:
  "state w_peek = Playing" "bullets w_peek = 6" "reloading w_peek = False" "enemies w_peek = [0]"
  "score w_peek = 0" "waveKills w_peek = 0" "wave w_peek = 1" "nextRef w_peek = 1" "pending w_peek = []"
  "heap w_peek 0 = Some (e_spawned\<lparr>drawX := 308, estate := Peeking, peekT := 0.05\<rparr>)"
  unfolding w_peek_def
  by (simp_all add: modEnemy_def w_spawned_facts e_spawned_simps setEnemy_def)

lemma w_low_facts:
  "state w_low = Playing" "bullets w_low = 6" "reloading w_low = False" "enemies w_low = [0]"
  "heap w_low 0 = Some (e_spawned\<lparr>drawX := 420, drawY := 640\<rparr>)"
  unfolding w_low_def
  by (simp_all add: modEnemy_def w_spawned_facts e_spawned_simps setEnemy_def)

lemma w_peek_eq:
  "w_peek = w_spawned\<lparr>heap := [0 \<mapsto> e_spawned\<lparr>drawX := 308, estate := Peeking, peekT := 0.05\<rparr>]\<rparr>"
  unfolding w_peek_def
  by (simp add: modEnemy_def w_spawned_facts e_spawned_simps setEnemy_def w_spawned_eq)

lemma w_shooting_facts:
  "state w_shooting = Playing" "bullets w_shooting = 6" "reloading w_shooting = False"
  "enemies w_shooting = [0]" "lives w_shooting = 3" "waveKills w_shooting = 0" "waveEnemies w_shooting = 5"
  "pending w_shooting = [(EnemyDamageCb 0, 260), (ShootHideCb 0, 720)]"
  "heap w_shooting 0 = Some (e_spawned\<lparr>drawX := 308, estate := Shooting, peekT := 0, shootT := 0.4\<rparr>)"
  unfolding w_shooting_def w_peek_eq w_spawned_eq
  by (simp_all add: w_start_eq new_WesternShooter_def update_def updateFx_def updateReload_def
      updateSpawn_def updateEnemies_def updateParticles_def updateEnemy_def enemyShoot_def
      enemyObjs_def clamp_def setEnemy_def pushParticle_def setTimeout_def isGone_def Let_def
      e_spawned_def MAX_LIVES_def MAX_BULLETS_def)

lemma w_killed_facts:
  "state w_killed = Playing" "lives w_killed = 3"
  "pending w_killed = [(EnemyDamageCb 0, 260), (ShootHideCb 0, 720)]"
  "heap w_killed 0 = Some (e_spawned\<lparr>drawX := 308, estate := Dead, peekT := 0, shootT := 0.4, hp := 0, deadT := 0.75\<rparr>)"
  unfolding w_killed_def
  by (simp_all add: w_shooting_facts tap_defs e_spawned_def)



subsection \<open>Reachability of the concrete runs\<close>

lemma r_half_range: "\<forall>i. 0 \<le> r_half i \<and> r_half i < 1"
  by (simp add: r_half_def)

lemma reachable_frames: "reachable w \<Longrightarrow> 0 \<le> step \<Longrightarrow> reachable (frames n step w)"
  by (induction n arbitrary: w) (simp_all add: reach_frame)

lemma reachable_taps: "reachable w \<Longrightarrow> reachable (taps n x y w)"
  by (induction n arbitrary: w) (simp_all add: reach_tap)

lemma reachable_w_start: "reachable w_start"
  unfolding w_start_def by (intro reach_tap reach_new r_half_range)

lemma reachable_w_spawned: "reachable w_spawned"
  unfolding w_spawned_def by (simp add: reachable_frames reachable_w_start)

lemma reachable_w_shot: "reachable w_shot"
  unfolding w_shot_def by (intro reach_tap reachable_w_spawned)

lemma reachable_w_shot_again: "reachable w_shot_again"
  unfolding w_shot_again_def by (intro reach_tap reachable_w_shot)

lemma reachable_w_empty: "reachable w_empty"
  unfolding w_empty_def by (intro reachable_taps reachable_w_start)

lemma reachable_w_reloading: "reachable w_reloading"
  unfolding w_reloading_def by (rule reach_timeout[OF reachable_w_empty]) (simp add: w_empty_facts)

lemma w_start_facts:
  "state w_start = Playing" "bullets w_start = 6" "reloading w_start = False" "lives w_start = 3"
  "wave w_start = 1" "waveEnemies w_start = 5" "enemies w_start = []" "pending w_start = []"
  by (simp_all add: w_start_eq new_WesternShooter_def MAX_BULLETS_def MAX_LIVES_def)

subsection \<open>Ammunition, lives and the wave target\<close>

lemma onTap_bullets:
  "state w = Playing \<Longrightarrow> \<not> inRect x y (W - 118) (H - 70) 108 34 \<Longrightarrow> \<not> reloading w \<Longrightarrow> 0 < bullets w
    \<Longrightarrow> bullets (onTap x y w) = bullets w - 1"
  "state w = Playing \<Longrightarrow> reloading w \<or> bullets w \<le> 0 \<or> inRect x y (W - 118) (H - 70) 108 34
    \<Longrightarrow> bullets (onTap x y w) = bullets w"
  "state w \<noteq> Playing \<Longrightarrow> bullets (onTap x y w) = bullets w \<or> bullets (onTap x y w) = MAX_BULLETS"
  by (auto simp add: onTap_def startGame_def)

lemma onTap_lives:
  "lives (onTap x y w) = lives w \<or> lives (onTap x y w) = MAX_LIVES"
  by (auto simp add: onTap_def startGame_def)

lemma update_bullets:
  "bullets (update dt w) = bullets w \<or> bullets (update dt w) = MAX_BULLETS"
  by (auto simp add: update_def updateReload_def Let_def)

lemma update_reload_done:
  "state w = Playing \<Longrightarrow> reloading w \<Longrightarrow> reloadTimer w - dt \<le> 0 \<Longrightarrow>
     bullets (update dt w) = MAX_BULLETS \<and> \<not> reloading (update dt w)"
  by (simp add: update_def updateReload_def Let_def)

lemma run_callback_lives:
  "lives (run_callback cb w) = lives w \<or> lives (run_callback cb w) = max 0 (lives w - 1)"
  by (auto simp add: run_callback_def takeDamage_def Let_def setTimeout_def split_beta
      split: callback.splits option.splits)

lemma takeDamage_lives: "state w = Playing \<Longrightarrow> lives (takeDamage w) = max 0 (lives w - 1)"
  by (simp add: takeDamage_def Let_def)

lemma reachable_ranges:
  "reachable w \<Longrightarrow> 0 \<le> bullets w \<and> bullets w \<le> MAX_BULLETS \<and> 0 \<le> lives w \<and> lives w \<le> MAX_LIVES"
proof (induction rule: reachable.induct)
  case (reach_new r)
  show ?case by (simp add: new_WesternShooter_def MAX_BULLETS_def MAX_LIVES_def)
next
  case (reach_tap w x y)
  have b: "0 \<le> bullets (onTap x y w) \<and> bullets (onTap x y w) \<le> MAX_BULLETS"
  proof (cases "state w = Playing")
    case True
    show ?thesis
    proof (cases "reloading w \<or> bullets w \<le> 0 \<or> inRect x y (W - 118) (H - 70) 108 34")
      case True
      with \<open>state w = Playing\<close> reach_tap.IH show ?thesis by (simp add: onTap_bullets(2))
    next
      case False
      with \<open>state w = Playing\<close> have "bullets (onTap x y w) = bullets w - 1"
        by (simp add: onTap_bullets(1))
      with False reach_tap.IH show ?thesis by simp
    qed
  next
    case False
    from onTap_bullets(3)[OF False, of x y] reach_tap.IH show ?thesis
      by (auto simp: MAX_BULLETS_def)
  qed
  from onTap_lives[of x y w] reach_tap.IH
  have "0 \<le> lives (onTap x y w) \<and> lives (onTap x y w) \<le> MAX_LIVES"
    by (auto simp: MAX_LIVES_def)
  with b show ?case by simp
next
  case (reach_frame w t)
  from update_bullets[of "min ((t - lastT w) / 1000) 0.05" "w\<lparr>lastT := t\<rparr>"] reach_frame.IH
  show ?case by (auto simp: loop_def Let_def MAX_BULLETS_def)
next
  case (reach_timeout w i)
  from run_callback_lives[of "fst (pending w ! i)" "w\<lparr>pending := take i (pending w) @ drop (Suc i) (pending w)\<rparr>"]
    reach_timeout.IH reach_timeout.hyps
  show ?case by (auto simp: timeout_def)
qed

lemma reachable_wave_target:
  "reachable w \<Longrightarrow> 1 \<le> wave w \<and> waveEnemies w = (if wave w = 1 then 5 else 5 + wave w * 2)"
proof (induction rule: reachable.induct)
  case (reach_new r)
  show ?case by (simp add: new_WesternShooter_def)
next
  case (reach_tap w x y)
  then show ?case by (auto simp add: onTap_def startGame_def)
next
  case (reach_frame w t)
  then show ?case by simp
next
  case (reach_timeout w i)
  then show ?case
    by (auto simp add: timeout_def run_callback_def advanceWave_def Let_def split_beta
        split: callback.splits option.splits)
qed

text \<open>
  C5. In every reachable state the ammunition count lies in \<open>[0, 6]\<close> and the lives count
  in \<open>[0, 3]\<close>. During play a tap changes the ammunition only when it is positive and no
  reload is running, and then by exactly one; a reload whose countdown runs out in a
  step restores the ammunition to 6 and clears the flag; the damage command takes one
  life, floored at zero.
\<close>
theorem ammo_and_lives_in_range:
  assumes "reachable w"
  shows "0 \<le> bullets w \<and> bullets w \<le> 6 \<and> 0 \<le> lives w \<and> lives w \<le> 3 \<and>
    (state w = Playing \<and> bullets (onTap x y w) \<noteq> bullets w \<longrightarrow>
       0 < bullets w \<and> \<not> reloading w \<and> bullets (onTap x y w) = bullets w - 1) \<and>
    (state w = Playing \<and> reloading w \<and> reloadTimer w - dt \<le> 0 \<longrightarrow>
       bullets (update dt w) = 6 \<and> \<not> reloading (update dt w)) \<and>
    (state w = Playing \<longrightarrow> lives (takeDamage w) = max 0 (lives w - 1))"
proof -
  from reachable_ranges[OF assms]
  have r: "0 \<le> bullets w \<and> bullets w \<le> 6 \<and> 0 \<le> lives w \<and> lives w \<le> 3"
    by (simp add: MAX_BULLETS_def MAX_LIVES_def)
  have t: "state w = Playing \<and> bullets (onTap x y w) \<noteq> bullets w \<longrightarrow>
       0 < bullets w \<and> \<not> reloading w \<and> bullets (onTap x y w) = bullets w - 1"
    using onTap_bullets(1)[of w x y] onTap_bullets(2)[of w x y] by fastforce
  have u: "state w = Playing \<and> reloading w \<and> reloadTimer w - dt \<le> 0 \<longrightarrow>
       bullets (update dt w) = 6 \<and> \<not> reloading (update dt w)"
    using update_reload_done[of w dt] by (simp add: MAX_BULLETS_def)
  from r t u takeDamage_lives[of w] show ?thesis by blast
qed

theorem ammo_and_lives_in_range_witness:
  "reachable w_start \<and> bullets w_start = 6 \<and> lives w_start = 3 \<and>
   bullets (onTap 10 10 w_start) = 5 \<and> lives (takeDamage w_start) = 2 \<and>
   reachable w_reloading \<and> state w_reloading = Playing \<and> reloading w_reloading \<and>
   reloadTimer w_reloading - 2 \<le> 0 \<and> bullets w_reloading = 0 \<and>
   bullets (update 2 w_reloading) = 6 \<and> \<not> reloading (update 2 w_reloading)"
proof -
  have tap: "bullets (onTap 10 10 w_start) = 5"
    by (simp add: onTap_bullets(1) w_start_facts inRect_def W_def H_def)
  from ammo_and_lives_in_range[OF reachable_w_start, of 10 10 2] tap
  have a: "lives (takeDamage w_start) = 2" by (simp add: w_start_facts)
  from ammo_and_lives_in_range[OF reachable_w_reloading, of 10 10 2]
  have b: "bullets (update 2 w_reloading) = 6 \<and> \<not> reloading (update 2 w_reloading)"
    by (simp add: w_reloading_facts)
  from a b tap show ?thesis
    by (simp add: reachable_w_start reachable_w_reloading w_start_facts w_reloading_facts)
qed

text \<open>
  C3, as the claim states it, fails: the first wave of a freshly started session has
  wave number 1 and a kill target of 5, not \<open>5 + 1 * 2 = 7\<close>.
\<close>
theorem first_wave_target_counterexample:
  "reachable w_start \<and> state w_start = Playing \<and> wave w_start = 1 \<and> waveEnemies w_start = 5 \<and>
   waveEnemies w_start \<noteq> 5 + wave w_start * 2"
  by (simp add: reachable_w_start w_start_facts)

text \<open>
  C3, amended. In every reachable state the wave number is at least 1; the kill target
  is 5 in wave 1 (set by the constructor and by every start of a session) and
  \<open>5 + n * 2\<close> in every wave \<open>n \<ge> 2\<close>; and a wave advance during play moves to the next
  wave number \<open>n\<close> with the target \<open>5 + n * 2\<close>.
\<close>
theorem wave_target:
  assumes "reachable w"
  shows "1 \<le> wave w \<and> waveEnemies w = (if wave w = 1 then 5 else 5 + wave w * 2) \<and>
    wave (startGame w) = 1 \<and> waveEnemies (startGame w) = 5 \<and>
    (state w = Playing \<longrightarrow> wave (advanceWave w) = wave w + 1 \<and>
       waveEnemies (advanceWave w) = 5 + wave (advanceWave w) * 2)"
  using reachable_wave_target[OF assms] by (simp add: startGame_def advanceWave_def Let_def)

theorem wave_target_witness:
  "reachable w_start \<and> state w_start = Playing \<and> wave w_start = 1 \<and> waveEnemies w_start = 5 \<and>
   wave (advanceWave w_start) = 2 \<and> waveEnemies (advanceWave w_start) = 9"
  using wave_target[OF reachable_w_start] by (simp add: reachable_w_start w_start_facts)

subsection \<open>Reload requests\<close>

text \<open>
  C8. A reload command issued while a reload is in progress, or while the ammunition
  is at its maximum of 6, changes nothing: the state after it is the state before it,
  countdown, flag and ammunition included. This holds for the command itself, for the
  automatic reload callback, and for a tap on the RELOAD button during play.
\<close>
theorem triggerReload_noop:
  assumes "reloading w \<or> bullets w = 6"
  shows "triggerReload w = w \<and> run_callback ReloadCb w = w \<and>
     (state w = Playing \<and> inRect x y (W - 118) (H - 70) 108 34 \<longrightarrow> onTap x y w = w)"
  using assms by (simp add: triggerReload_def run_callback_def onTap_def MAX_BULLETS_def)

theorem triggerReload_noop_witness:
  "reloading w_reloading \<and> state w_reloading = Playing \<and> inRect 400 660 (W - 118) (H - 70) 108 34 \<and>
   triggerReload w_reloading = w_reloading \<and> run_callback ReloadCb w_reloading = w_reloading \<and>
   onTap 400 660 w_reloading = w_reloading \<and> reloadTimer (triggerReload w_reloading) = 2"
  using triggerReload_noop[of w_reloading 400 660]
  by (simp add: w_reloading_facts inRect_def W_def H_def)

text \<open>
  C10. During play a tap inside the RELOAD button rectangle
  (\<open>x\<close> in \<open>[W - 118, W - 10]\<close>, \<open>y\<close> in \<open>[H - 70, H - 36]\<close>) is the reload request and
  nothing else: the ammunition, the enemy objects, the enemy list, the particles, the
  score, the kill counter, the pending callbacks and the oracle position are as before,
  whatever enemy hitbox holds the tap.
\<close>
theorem reload_button_tap:
  assumes "state w = Playing"
    and "W - 118 \<le> x" and "x \<le> W - 10" and "H - 70 \<le> y" and "y \<le> H - 36"
  shows "onTap x y w = triggerReload w \<and> bullets (onTap x y w) = bullets w \<and>
         heap (onTap x y w) = heap w \<and> enemies (onTap x y w) = enemies w \<and>
         particles (onTap x y w) = particles w \<and> score (onTap x y w) = score w \<and>
         waveKills (onTap x y w) = waveKills w \<and> pending (onTap x y w) = pending w \<and>
         rngPos (onTap x y w) = rngPos w"
  using assms by (simp add: onTap_def inRect_def triggerReload_def)

theorem reload_button_tap_witness:
  "state w_low = Playing \<and> W - 118 \<le> 420 \<and> 420 \<le> W - 10 \<and> H - 70 \<le> 660 \<and> 660 \<le> H - 36 \<and>
   0 < bullets w_low \<and> \<not> reloading w_low \<and>
   map_option visible (heap w_low 0) = Some True \<and> map_option (inHitbox 420 660) (heap w_low 0) = Some True \<and>
   onTap 420 660 w_low = triggerReload w_low \<and> bullets (onTap 420 660 w_low) = 6 \<and>
   heap (onTap 420 660 w_low) = heap w_low"
  using reload_button_tap[of w_low 420 660]
  by (simp add: w_low_facts W_def H_def inHitbox_def enemyHitbox_def inRect_def e_spawned_simps)

subsection \<open>The enemy's shot\<close>

text \<open>
  C7. When an enemy shoots, the damage to the player is deferred:
  \<open>enemyShoot\<close> schedules the callback \<open>EnemyDamageCb\<close> for that enemy. If the enemy is
  dead when the callback runs, the callback changes nothing (when it comes due it only
  leaves the pending list). The damage command changes nothing when the session is
  not being played.
\<close>
theorem delayed_damage_guards:
  "(heap w a = Some e \<and> estate e \<noteq> Dead \<longrightarrow>
      pending (enemyShoot a w) = pending w @ [(EnemyDamageCb a, 260), (ShootHideCb a, 720)]) \<and>
   (heap w a = Some e \<and> estate e = Dead \<longrightarrow> run_callback (EnemyDamageCb a) w = w) \<and>
   (heap w a = Some e \<and> estate e = Dead \<and> i < length (pending w) \<and>
    fst (pending w ! i) = EnemyDamageCb a \<longrightarrow>
      timeout i w = w\<lparr>pending := take i (pending w) @ drop (Suc i) (pending w)\<rparr>) \<and>
   (state w \<noteq> Playing \<longrightarrow> takeDamage w = w)"
  by (simp add: run_callback_def timeout_def takeDamage_def enemyShoot_def Let_def setTimeout_def
      pushParticle_def setEnemy_def)

theorem delayed_damage_guards_witness:
  "heap w_peek 0 = Some (e_spawned\<lparr>drawX := 308, estate := Peeking, peekT := 0.05\<rparr>) \<and>
   pending (enemyShoot 0 w_peek) = [(EnemyDamageCb 0, 260), (ShootHideCb 0, 720)] \<and>
   map_option estate (heap w_killed 0) = Some Dead \<and>
   fst (pending w_killed ! 0) = EnemyDamageCb 0 \<and>
   run_callback (EnemyDamageCb 0) w_killed = w_killed \<and>
   timeout 0 w_killed = w_killed\<lparr>pending := [(ShootHideCb 0, 720)]\<rparr> \<and>
   lives (timeout 0 w_killed) = 3 \<and>
   state (new_WesternShooter r_half) \<noteq> Playing \<and>
   takeDamage (new_WesternShooter r_half) = new_WesternShooter r_half"
  using delayed_damage_guards[of w_peek 0 "e_spawned\<lparr>drawX := 308, estate := Peeking, peekT := 0.05\<rparr>" 0]
    delayed_damage_guards[of w_killed 0
      "e_spawned\<lparr>drawX := 308, estate := Dead, peekT := 0, shootT := 0.4, hp := 0, deadT := 0.75\<rparr>" 0]
    delayed_damage_guards[of "new_WesternShooter r_half" 0 e_spawned 0]
  by (simp add: w_peek_facts w_killed_facts new_WesternShooter_def)


subsection \<open>Spawning with every slot taken\<close>

lemma clamp_upper: "lo \<le> hi \<Longrightarrow> clamp v lo hi \<le> hi"
  by (auto simp add: clamp_def)

lemma covers_ids: "cover_id ` set COVERS = {0, 1, 2, 3}"
  by (simp add: COVERS_def)

lemma full_covered:
  assumes "allSlotsOccupied w"
  shows "cover_id ` set COVERS \<subseteq> coverId ` set (filter (\<lambda>e. estate e \<noteq> Dead) (enemyObjs w))"
proof -
  from assms have "\<forall>c \<in> set COVERS. \<exists>e \<in> set (enemyObjs w). estate e \<noteq> Dead \<and> coverId e = cover_id c"
    by (simp add: allSlotsOccupied_def list_all_iff list_ex_iff)
  then show ?thesis by force
qed

lemma full_live_ids:
  assumes "allSlotsOccupied w"
  shows "{0, 1, 2, 3} \<subseteq> coverId ` set (filter (\<lambda>e. estate e \<noteq> Dead) (enemyObjs w))"
  using full_covered[OF assms] unfolding covers_ids .

lemma full_active:
  assumes "allSlotsOccupied w"
  shows "4 \<le> length (filter (\<lambda>e. estate e \<noteq> Dead) (enemyObjs w))"
proof -
  let ?L = "filter (\<lambda>e. estate e \<noteq> Dead) (enemyObjs w)"
  have "card {0, 1, 2, 3 :: nat} \<le> card (coverId ` set ?L)"
    by (rule card_mono[OF _ full_live_ids[OF assms]]) simp
  also have "\<dots> \<le> card (set ?L)" by (rule card_image_le) simp
  also have "\<dots> \<le> length ?L" by (rule card_length)
  finally show ?thesis by simp
qed

lemma full_spawnEnemy: "allSlotsOccupied w \<Longrightarrow> spawnEnemy w = w"
proof -
  assume a: "allSlotsOccupied w"
  have "filter (\<lambda>c. cover_id c \<notin> set (map coverId (filter (\<lambda>e. estate e \<noteq> Dead) (enemyObjs w)))) COVERS = []"
    using full_covered[OF a] by (auto simp add: filter_empty_conv)
  then show ?thesis by (simp add: spawnEnemy_def)
qed

lemma full_updateSpawn: "allSlotsOccupied w \<Longrightarrow> updateSpawn dt w = w"
proof -
  assume a: "allSlotsOccupied w"
  have "clamp (2 + \<lfloor>real_of_int (wave w) * 0.6\<rfloor>) 1 4 \<le> (4::int)"
    by (rule clamp_upper) simp
  with full_active[OF a] show ?thesis
    by (simp add: updateSpawn_def Let_def)
qed

lemma allSlotsOccupied_cong:
  "heap w' = heap w \<Longrightarrow> enemies w' = enemies w \<Longrightarrow> allSlotsOccupied w' = allSlotsOccupied w"
  by (simp add: allSlotsOccupied_def enemyObjs_def)

lemma updateEnemies_sublist: "set (enemies (updateEnemies dt w)) \<subseteq> set (enemies w)"
  by (auto simp add: updateEnemies_def Let_def)

text \<open>
  C9. When every one of the 4 cover slots holds an enemy that is not dead, the spawn
  attempt of a simulation step changes nothing: \<open>spawnEnemy\<close> and the spawn block of
  \<open>update\<close> return the state as it was, and across the whole step the spawn countdown and
  the spawned-this-wave counter keep their values, no object is allocated and no
  reference joins the enemy list.
\<close>
theorem spawn_skipped_when_full:
  assumes "allSlotsOccupied w"
  shows "spawnEnemy w = w \<and> updateSpawn dt w = w \<and>
    (state w = Playing \<longrightarrow>
       spawnTimer (update dt w) = spawnTimer w \<and> waveSpawned (update dt w) = waveSpawned w \<and>
       nextRef (update dt w) = nextRef w \<and> set (enemies (update dt w)) \<subseteq> set (enemies w))"
proof -
  let ?w = "updateReload dt (updateFx dt w)"
  have "allSlotsOccupied ?w" using assms by (simp add: allSlotsOccupied_cong[of ?w w])
  then have s: "updateSpawn dt ?w = ?w" by (rule full_updateSpawn)
  have "set (enemies (updateEnemies dt ?w)) \<subseteq> set (enemies w)"
    using updateEnemies_sublist[of dt ?w] by simp
  with s full_spawnEnemy[OF assms] full_updateSpawn[OF assms] show ?thesis
    by (simp add: update_def)
qed

lemma w_full_facts:
  "state w_full = Playing" "allSlotsOccupied w_full" "spawnTimer w_full = 2" "waveSpawned w_full = 4"
  "enemies w_full = [0, 1, 2, 3]" "nextRef w_full = 4"
  unfolding w_full_def
  by (simp_all add: w_start_eq new_WesternShooter_def spawnEnemy_def enemyObjs_def random_def
      setEnemy_def COVERS_def OUTFITS_length_def DOOR_CX_def Let_def r_half_def allSlotsOccupied_def)

theorem spawn_skipped_when_full_witness:
  "allSlotsOccupied w_full \<and> state w_full = Playing \<and> spawnEnemy w_full = w_full \<and>
   updateSpawn 0.05 w_full = w_full \<and> spawnTimer (update 0.05 w_full) = 2 \<and>
   waveSpawned (update 0.05 w_full) = 4 \<and> nextRef (update 0.05 w_full) = 4 \<and>
   set (enemies (update 0.05 w_full)) \<subseteq> {0, 1, 2, 3}"
  using spawn_skipped_when_full[of w_full "0.05"] by (simp add: w_full_facts)

subsection \<open>What a shot does to the enemy objects\<close>

lemma blood_score [simp]:
  "score (blood n c_x c_y w) = score w"
  "waveKills (blood n c_x c_y w) = waveKills w"
  "pending (blood n c_x c_y w) = pending w"
  by (induction n arbitrary: w; simp add: split_beta rand_def random_def pushParticle_def)+

lemma damageEnemy_heap:
  "heap (damageEnemy a w) =
    (case heap w a of None \<Rightarrow> heap w | Some e \<Rightarrow> (heap w)(a \<mapsto> hitEnemy e))"
  by (simp add: damageEnemy_def hitEnemy_def Let_def split_beta split: option.splits)


lemma fireLoop_find:
  "fireLoop x y as w =
     (case find (hits x y (heap w)) as of None \<Rightarrow> (False, w) | Some a \<Rightarrow> (True, damageEnemy a w))"
  by (induction as) (simp_all add: hits_def split: option.splits)

lemma fireAt_heap:
  "heap (fireAt x y w) =
     (case find (hits x y (heap w)) (enemies w) of
        None \<Rightarrow> heap w
      | Some a \<Rightarrow> (case heap w a of None \<Rightarrow> heap w | Some e \<Rightarrow> (heap w)(a \<mapsto> hitEnemy e)))"
  by (simp add: fireAt_def Let_def fireLoop_find damageEnemy_heap split: option.splits)







subsection \<open>Which enemies a shot can hit\<close>




subsection \<open>Hit points\<close>

text \<open>
  C2 at a failing input. In the reachable state \<open>w_shot\<close> the only enemy is Dead with 0
  hit points and is still in the enemy list. The next tap on it is a fire command that
  hits it again: its hit points are \<open>-1\<close>, the score has grown by \<open>100 * wave\<close> once
  more and the kill counter by one more.
\<close>
theorem dead_enemy_hit_again:
  "reachable w_shot \<and> state w_shot = Playing \<and> 0 < bullets w_shot \<and> \<not> reloading w_shot \<and>
   enemies w_shot = [0] \<and>
   map_option estate (heap w_shot 0) = Some Dead \<and> map_option hp (heap w_shot 0) = Some 0 \<and>
   w_shot_again = onTap 405.65 331 w_shot \<and> reachable w_shot_again \<and>
   enemies w_shot_again = [0] \<and>
   map_option hp (heap w_shot_again 0) = Some (- 1) \<and>
   score w_shot_again = score w_shot + 100 * wave w_shot \<and>
   waveKills w_shot_again = waveKills w_shot + 1"
  unfolding w_shot_again_def[symmetric]
  by (simp add: reachable_w_shot reachable_w_shot_again w_shot_facts w_shot_again_facts)

subsection \<open>One enemy per cover slot\<close>

lemma enemy_step_refl: "enemy_step e e"
  by (simp add: enemy_step_def)

lemma enemy_step_trans: "enemy_step e e' \<Longrightarrow> enemy_step e' e'' \<Longrightarrow> enemy_step e e''"
  by (auto simp add: enemy_step_def)

lemma heap_evolves_refl: "heap_evolves h h"
  by (simp add: heap_evolves_def enemy_step_refl split: option.splits)

lemma heap_evolves_NoneD: "heap_evolves h h' \<Longrightarrow> h a = None \<Longrightarrow> h' a = None"
  unfolding heap_evolves_def by (erule allE[of _ a]) simp

lemma heap_evolves_SomeD:
  "heap_evolves h h' \<Longrightarrow> h a = Some e \<Longrightarrow> \<exists>e'. h' a = Some e' \<and> enemy_step e e'"
  unfolding heap_evolves_def by (erule allE[of _ a]) simp

lemma heap_evolves_trans:
  assumes "heap_evolves h h'" "heap_evolves h' h''"
  shows "heap_evolves h h''"
  unfolding heap_evolves_def
proof
  fix a
  show "case h a of None \<Rightarrow> h'' a = None | Some e \<Rightarrow> \<exists>e'. h'' a = Some e' \<and> enemy_step e e'"
  proof (cases "h a")
    case None
    from heap_evolves_NoneD[OF assms(2) heap_evolves_NoneD[OF assms(1) None]] None
    show ?thesis by simp
  next
    case (Some e)
    from heap_evolves_SomeD[OF assms(1) Some] obtain e' where 1: "h' a = Some e'" "enemy_step e e'"
      by blast
    from heap_evolves_SomeD[OF assms(2) 1(1)] obtain e'' where 2: "h'' a = Some e''" "enemy_step e' e''"
      by blast
    from enemy_step_trans[OF 1(2) 2(2)] 2(1) Some show ?thesis by simp
  qed
qed

lemma heap_evolves_upd:
  "h a = Some e \<Longrightarrow> enemy_step e e' \<Longrightarrow> heap_evolves h (h(a \<mapsto> e'))"
  by (simp add: heap_evolves_def enemy_step_refl split: option.splits)

lemma heap_evolves_Some:
  assumes "heap_evolves h h'" "h' a = Some e'"
  shows "\<exists>e. h a = Some e \<and> enemy_step e e'"
proof (cases "h a")
  case None
  from heap_evolves_NoneD[OF assms(1) None] assms(2) show ?thesis by simp
next
  case (Some e)
  from heap_evolves_SomeD[OF assms(1) Some] assms(2) Some show ?thesis by auto
qed

lemma heap_evolves_dom: "heap_evolves h h' \<Longrightarrow> dom h' = dom h"
proof (rule set_eqI)
  fix a assume ev: "heap_evolves h h'"
  show "a \<in> dom h' \<longleftrightarrow> a \<in> dom h"
  proof (cases "h a")
    case None
    from heap_evolves_NoneD[OF ev None] None show ?thesis by (simp add: dom_def)
  next
    case (Some e)
    from heap_evolves_SomeD[OF ev Some] Some show ?thesis by (auto simp add: dom_def)
  qed
qed

lemma heap_ok_evolves:
  assumes "heap_ok h n" "heap_evolves h h'"
  shows "heap_ok h' n"
proof -
  have "\<forall>a e'. h' a = Some e' \<longrightarrow> enemy_ok e'"
  proof (intro allI impI)
    fix a e' assume "h' a = Some e'"
    from heap_evolves_Some[OF assms(2) this] obtain e where "h a = Some e" "enemy_step e e'" by blast
    with assms(1) show "enemy_ok e'" by (auto simp add: heap_ok_def enemy_step_def)
  qed
  with assms(1) heap_evolves_dom[OF assms(2)] show ?thesis by (simp add: heap_ok_def)
qed

lemma slots_distinct_evolves:
  assumes "heap_ok h n" "slots_distinct h as" "heap_evolves h h'" "set as' \<subseteq> set as"
  shows "slots_distinct h' as'"
  unfolding slots_distinct_def
proof (intro ballI allI impI)
  fix a b ea' eb'
  assume ab: "a \<in> set as'" "b \<in> set as'"
    and h: "a \<noteq> b \<and> h' a = Some ea' \<and> h' b = Some eb' \<and> estate ea' \<noteq> Dead \<and> estate eb' \<noteq> Dead"
  from h heap_evolves_Some[OF assms(3)] obtain ea eb
    where e: "h a = Some ea" "enemy_step ea ea'" "h b = Some eb" "enemy_step eb eb'" by blast
  from e assms(1) have ok: "enemy_ok ea" "enemy_ok eb" by (auto simp add: heap_ok_def)
  with e h have live: "estate ea \<noteq> Dead" "estate eb \<noteq> Dead" "coverId ea' = coverId ea" "coverId eb' = coverId eb"
    by (auto simp add: enemy_step_def)
  from ab assms(4) have "a \<in> set as" "b \<in> set as" by auto
  with assms(2) e live h have "coverId ea \<noteq> coverId eb"
    unfolding slots_distinct_def by blast
  with live show "coverId ea' \<noteq> coverId eb'" by simp
qed

lemma deref_mem: "a \<in> set as \<Longrightarrow> h a = Some e \<Longrightarrow> e \<in> set (deref h as)"
proof (induction as)
  case Nil
  then show ?case by simp
next
  case (Cons b as)
  show ?case
  proof (cases "a = b")
    case True
    with Cons.prems show ?thesis by simp
  next
    case False
    with Cons have "e \<in> set (deref h as)" by simp
    then show ?thesis by (cases "h b") simp_all
  qed
qed

lemma deref_memD: "e \<in> set (deref h as) \<Longrightarrow> \<exists>a \<in> set as. h a = Some e"
proof (induction as)
  case Nil
  then show ?case by simp
next
  case (Cons b as)
  show ?case
  proof (cases "h b")
    case None
    with Cons show ?thesis by simp
  next
    case (Some eb)
    with Cons.prems have "e = eb \<or> e \<in> set (deref h as)" by simp
    then show ?thesis
    proof
      assume "e = eb"
      with Some show ?thesis by simp
    next
      assume "e \<in> set (deref h as)"
      from Cons.IH[OF this] show ?thesis by auto
    qed
  qed
qed

lemma slots_distinctD:
  assumes "slots_distinct h as" "a \<in> set as" "b \<in> set as" "a \<noteq> b" "h a = Some ea"
    "h b = Some eb" "estate ea \<noteq> Dead" "estate eb \<noteq> Dead"
  shows "coverId ea \<noteq> coverId eb"
proof -
  from assms(1) have "\<forall>a \<in> set as. \<forall>b \<in> set as. \<forall>ea eb.
        a \<noteq> b \<and> h a = Some ea \<and> h b = Some eb \<and> estate ea \<noteq> Dead \<and> estate eb \<noteq> Dead
        \<longrightarrow> coverId ea \<noteq> coverId eb"
    by (simp only: slots_distinct_def)
  from this[rule_format, of a b ea eb] assms(2-) show ?thesis by simp
qed

lemma slots_distinct_subset:
  assumes "slots_distinct h as" "set as' \<subseteq> set as"
  shows "slots_distinct h as'"
  unfolding slots_distinct_def
proof (intro ballI allI impI)
  fix a b ea eb
  assume ab: "a \<in> set as'" "b \<in> set as'"
    and h: "a \<noteq> b \<and> h a = Some ea \<and> h b = Some eb \<and> estate ea \<noteq> Dead \<and> estate eb \<noteq> Dead"
  from ab assms(2) have "a \<in> set as" "b \<in> set as" by blast+
  with h show "coverId ea \<noteq> coverId eb"
    by (intro slots_distinctD[OF assms(1), of a b ea eb]) simp_all
qed

lemma slots_distinct_tl: "slots_distinct h (a # as) \<Longrightarrow> slots_distinct h as"
  by (erule slots_distinct_subset) (rule set_subset_Cons)

lemma slots_distinct_count:
  assumes "distinct as" "slots_distinct h as"
  shows "length (filter (\<lambda>e. estate e \<noteq> Dead \<and> coverId e = c) (deref h as)) \<le> 1"
  using assms
proof (induction as)
  case Nil
  then show ?case by simp
next
  case (Cons a as)
  from Cons.prems have d: "distinct as" "a \<notin> set as" by simp_all
  from Cons.IH[OF d(1) slots_distinct_tl[OF Cons.prems(2)]]
  have IH: "length (filter (\<lambda>e. estate e \<noteq> Dead \<and> coverId e = c) (deref h as)) \<le> 1" .
  show ?case
  proof (cases "h a")
    case None
    with IH show ?thesis by simp
  next
    case (Some e)
    show ?thesis
    proof (cases "estate e \<noteq> Dead \<and> coverId e = c")
      case False
      with Some IH show ?thesis by auto
    next
      case True
      have "\<forall>eb \<in> set (deref h as). \<not> (estate eb \<noteq> Dead \<and> coverId eb = c)"
      proof
        fix eb assume "eb \<in> set (deref h as)"
        from deref_memD[OF this] obtain b where b: "b \<in> set as" "h b = Some eb" by blast
        with d(2) have ne: "a \<noteq> b" by auto
        show "\<not> (estate eb \<noteq> Dead \<and> coverId eb = c)"
        proof
          assume l: "estate eb \<noteq> Dead \<and> coverId eb = c"
          have "coverId e \<noteq> coverId eb"
            by (rule slots_distinctD[OF Cons.prems(2) _ _ ne Some b(2)]) (use b True l in simp_all)
          with True l show False by simp
        qed
      qed
      then have "filter (\<lambda>e. estate e \<noteq> Dead \<and> coverId e = c) (deref h as) = []"
        by (simp add: filter_empty_conv)
      with Some True show ?thesis by simp
    qed
  qed
qed

lemma heap_ok_alloc:
  assumes "heap_ok h n" "enemy_ok e"
  shows "heap_ok (h(n \<mapsto> e)) (Suc n)"
proof -
  from assms(1) have d: "\<And>a. (a \<in> dom h) = (a < n)" and ok: "\<And>a x. h a = Some x \<Longrightarrow> enemy_ok x"
    unfolding heap_ok_def by blast+
  have "\<And>a. (a \<in> dom (h(n \<mapsto> e))) = (a < Suc n)"
  proof -
    fix a show "(a \<in> dom (h(n \<mapsto> e))) = (a < Suc n)"
      using d[of a] by (cases "a = n") (simp_all add: less_Suc_eq)
  qed
  moreover have "\<And>a x. (h(n \<mapsto> e)) a = Some x \<Longrightarrow> enemy_ok x"
  proof -
    fix a x assume "(h(n \<mapsto> e)) a = Some x"
    then show "enemy_ok x" using ok[of a x] assms(2) by (cases "a = n") simp_all
  qed
  ultimately show ?thesis unfolding heap_ok_def by blast
qed

lemma slots_distinct_spawn:
  assumes "\<forall>a \<in> set as. a < n" "slots_distinct h as" "estate e \<noteq> Dead"
    and "coverId e \<notin> set (map coverId (filter (\<lambda>e. estate e \<noteq> Dead) (deref h as)))"
  shows "slots_distinct (h(n \<mapsto> e)) (as @ [n])"
  unfolding slots_distinct_def
proof (intro ballI allI impI)
  fix a b ea eb
  assume ab: "a \<in> set (as @ [n])" "b \<in> set (as @ [n])"
    and h: "a \<noteq> b \<and> (h(n \<mapsto> e)) a = Some ea \<and> (h(n \<mapsto> e)) b = Some eb \<and>
            estate ea \<noteq> Dead \<and> estate eb \<noteq> Dead"
  have fresh: "coverId ex \<noteq> coverId e" if "x \<in> set as" "h x = Some ex" "estate ex \<noteq> Dead" for x ex
  proof -
    from that have "ex \<in> set (filter (\<lambda>e. estate e \<noteq> Dead) (deref h as))"
      by (simp add: deref_mem)
    then have "coverId ex \<in> set (map coverId (filter (\<lambda>e. estate e \<noteq> Dead) (deref h as)))"
      by (simp only: set_map) (rule imageI)
    with assms(4) show ?thesis by metis
  qed
  have nn: "n \<notin> set as" using assms(1) by blast
  show "coverId ea \<noteq> coverId eb"
  proof (cases "a = n")
    case True
    with h ab nn have b: "b \<in> set as" "b \<noteq> n" "h b = Some eb" "ea = e" by auto
    from fresh[OF b(1) b(3)] h b(4) show ?thesis by auto
  next
    case False
    with ab have a: "a \<in> set as" "h a = Some ea" using h by auto
    show ?thesis
    proof (cases "b = n")
      case True
      with h have "eb = e" by simp
      with fresh[OF a] h show ?thesis by auto
    next
      case False
      with ab h have b: "b \<in> set as" "h b = Some eb" by auto
      from slots_distinctD[OF assms(2) a(1) b(1) _ a(2) b(2)] h show ?thesis by blast
    qed
  qed
qed

lemma enemy_step_hit: "enemy_step e (hitEnemy e)"
  by (simp add: enemy_step_def enemy_ok_def hitEnemy_def)

lemma heap_evolves_damageEnemy: "heap_evolves (heap w) (heap (damageEnemy a w))"
  by (cases "heap w a") (simp_all add: damageEnemy_heap heap_evolves_refl heap_evolves_upd enemy_step_hit)

lemma heap_evolves_fireAt: "heap_evolves (heap w) (heap (fireAt x y w))"
  by (simp add: fireAt_heap heap_evolves_refl heap_evolves_upd enemy_step_hit split: option.splits)

lemma heap_evolves_enemyShoot: "heap_evolves (heap w) (heap (enemyShoot a w))"
  by (cases "heap w a")
     (simp_all add: enemyShoot_def Let_def heap_evolves_refl heap_evolves_upd enemy_step_def enemy_ok_def)

lemma heap_evolves_updateEnemy: "heap_evolves (heap w) (heap (updateEnemy a dt w))"
proof (cases "heap w a")
  case None
  then show ?thesis by (simp add: updateEnemy_def heap_evolves_refl)
next
  case (Some e)
  then show ?thesis
    by (cases "estate e")
       (simp_all add: updateEnemy_def enemyShoot_def Let_def split_beta heap_evolves_upd
          enemy_step_def enemy_ok_def)
qed

lemma heap_evolves_fold_updateEnemy:
  "heap_evolves (heap w) (heap (fold (\<lambda>a. updateEnemy a dt) as w))"
proof (induction as arbitrary: w)
  case Nil
  show ?case by (simp add: heap_evolves_refl)
next
  case (Cons a as)
  from heap_evolves_trans[OF heap_evolves_updateEnemy[of w a dt] Cons[of "updateEnemy a dt w"]]
  show ?case by simp
qed

lemma heap_evolves_run_callback: "heap_evolves (heap w) (heap (run_callback cb w))"
proof (cases cb)
  case (RetreatCb a)
  then show ?thesis
    by (cases "heap w a")
       (simp_all add: run_callback_def split_beta heap_evolves_refl heap_evolves_upd
          enemy_step_def enemy_ok_def)
next
  case (ShootHideCb a)
  then show ?thesis
    by (cases "heap w a")
       (simp_all add: run_callback_def split_beta heap_evolves_refl heap_evolves_upd
          enemy_step_def enemy_ok_def)
next
  case (EnemyDamageCb a)
  then show ?thesis
    by (cases "heap w a") (simp_all add: run_callback_def heap_evolves_refl)
qed (simp_all add: run_callback_def heap_evolves_refl)

lemma wf_cong:
  "heap w' = heap w \<Longrightarrow> enemies w' = enemies w \<Longrightarrow> nextRef w' = nextRef w \<Longrightarrow> rng w' = rng w
     \<Longrightarrow> well_formed w' = well_formed w"
  by (simp add: well_formed_def)

lemma wf_step:
  assumes "well_formed w" "heap_evolves (heap w) (heap w')" "rng w' = rng w" "nextRef w' = nextRef w"
    "set (enemies w') \<subseteq> set (enemies w)" "distinct (enemies w')"
  shows "well_formed w'"
proof -
  from assms(1) have c: "\<forall>i. 0 \<le> rng w i \<and> rng w i < 1" "heap_ok (heap w) (nextRef w)"
    "\<forall>a \<in> set (enemies w). a < nextRef w" "slots_distinct (heap w) (enemies w)"
    by (simp_all add: well_formed_def)
  have 1: "heap_ok (heap w') (nextRef w')"
    using heap_ok_evolves[OF c(2) assms(2)] assms(4) by simp
  have 2: "slots_distinct (heap w') (enemies w')"
    by (rule slots_distinct_evolves[OF c(2) c(4) assms(2) assms(5)])
  have 3: "\<forall>a \<in> set (enemies w'). a < nextRef w'"
    using c(3) assms(4,5) by auto
  from c(1) assms(3) 1 2 3 assms(6) show ?thesis by (simp add: well_formed_def)
qed

lemma wf_slotCount:
  assumes "well_formed w"
  shows "slotCount c w \<le> 1"
proof -
  from assms have "distinct (enemies w)" "slots_distinct (heap w) (enemies w)"
    by (simp_all add: well_formed_def)
  from slots_distinct_count[OF this, of c] show ?thesis
    by (simp add: slotCount_def enemyObjs_def)
qed

lemma random_index:
  assumes "0 \<le> r" "r < 1" "0 < n"
  shows "nat \<lfloor>r * real n\<rfloor> < n"
proof -
  from assms have "r * real n < real n" by simp
  then have "\<lfloor>r * real n\<rfloor> < int n" by (simp add: floor_less_iff)
  with assms(3) show ?thesis by (simp add: nat_less_iff)
qed

lemma wf_spawnEnemy:
  assumes "well_formed w"
  shows "well_formed (spawnEnemy w)"
proof -
  let ?used = "map coverId (filter (\<lambda>e. estate e \<noteq> Dead) (enemyObjs w))"
  let ?free = "filter (\<lambda>c. cover_id c \<notin> set ?used) COVERS"
  show ?thesis
  proof (cases "?free = []")
    case True
    then have "spawnEnemy w = w" by (simp add: spawnEnemy_def)
    with assms show ?thesis by simp
  next
    case False
    from assms have c: "\<forall>i. 0 \<le> rng w i \<and> rng w i < 1" "heap_ok (heap w) (nextRef w)"
      "distinct (enemies w)" "\<forall>a \<in> set (enemies w). a < nextRef w"
      "slots_distinct (heap w) (enemies w)"
      by (simp_all add: well_formed_def)
    let ?i = "nat \<lfloor>rng w (rngPos w) * real (length ?free)\<rfloor>"
    let ?c = "?free ! ?i"
    from False c(1) have "?i < length ?free" by (intro random_index) simp_all
    then have "?c \<in> set ?free" by (rule nth_mem)
    then have fresh: "cover_id ?c \<notin> set ?used" by simp
    obtain e where e: "heap (spawnEnemy w) = (heap w)(nextRef w \<mapsto> e)" "estate e = Entering"
      "coverId e = cover_id ?c"
      using False by (simp add: spawnEnemy_def random_def Let_def setEnemy_def)
    have l: "enemies (spawnEnemy w) = enemies w @ [nextRef w]" "nextRef (spawnEnemy w) = Suc (nextRef w)"
      using False by (simp_all add: spawnEnemy_def random_def Let_def setEnemy_def)
    have 1: "heap_ok (heap (spawnEnemy w)) (nextRef (spawnEnemy w))"
      unfolding e(1) l(2) by (rule heap_ok_alloc[OF c(2)]) (simp add: enemy_ok_def e(2))
    have 2: "slots_distinct (heap (spawnEnemy w)) (enemies (spawnEnemy w))"
      unfolding e(1) l(1)
      by (rule slots_distinct_spawn[OF c(4) c(5)])
         (use fresh e in \<open>simp_all add: enemyObjs_def\<close>)
    have 3: "distinct (enemies (spawnEnemy w))" using c(3,4) by (auto simp add: l)
    have 4: "\<forall>a \<in> set (enemies (spawnEnemy w)). a < nextRef (spawnEnemy w)"
      using c(4) by (auto simp add: l)
    from c(1) 1 2 3 4 show ?thesis by (simp add: well_formed_def)
  qed
qed

lemma wf_damageEnemy:
  assumes "well_formed w"
  shows "well_formed (damageEnemy a w)"
  by (rule wf_step[OF assms]) (use assms in \<open>simp_all add: heap_evolves_damageEnemy well_formed_def\<close>)

lemma wf_updateEnemy:
  assumes "well_formed w"
  shows "well_formed (updateEnemy a dt w)"
  by (rule wf_step[OF assms]) (use assms in \<open>simp_all add: heap_evolves_updateEnemy well_formed_def\<close>)

lemma wf_fireAt:
  assumes "well_formed w"
  shows "well_formed (fireAt x y w)"
  by (rule wf_step[OF assms]) (use assms in \<open>simp_all add: heap_evolves_fireAt well_formed_def\<close>)

lemma wf_startGame: "well_formed w \<Longrightarrow> well_formed (startGame w)"
  by (erule wf_step) (simp_all add: heap_evolves_refl)

lemma wf_advanceWave:
  assumes "well_formed w"
  shows "well_formed (advanceWave w)"
  by (rule wf_step[OF assms])
     (use assms in \<open>simp_all add: heap_evolves_refl advanceWave_def Let_def well_formed_def\<close>)

lemma wf_triggerReload: "well_formed w \<Longrightarrow> well_formed (triggerReload w)"
  by (simp add: wf_cong[of "triggerReload w" w])

lemma wf_onTap: "well_formed w \<Longrightarrow> well_formed (onTap x y w)"
  by (simp add: onTap_def wf_startGame wf_triggerReload wf_fireAt)

lemma wf_updateSpawn:
  assumes "well_formed w"
  shows "well_formed (updateSpawn dt w)"
proof -
  let ?w1 = "w\<lparr>spawnTimer := spawnTimer w - dt\<rparr>"
  let ?w2 = "(snd (rand 0 0.8 ?w1))\<lparr>spawnTimer := spawnInterval (snd (rand 0 0.8 ?w1)) + fst (rand 0 0.8 ?w1)\<rparr>"
  have 1: "well_formed ?w1" using assms by (simp add: well_formed_def)
  have "well_formed ?w2" using assms by (simp add: well_formed_def rand_def random_def)
  then have 2: "well_formed (spawnEnemy ?w2)" by (rule wf_spawnEnemy)
  from assms 1 2 show ?thesis
    by (simp add: updateSpawn_def Let_def split_beta)
qed

lemma wf_updateEnemies:
  assumes "well_formed w"
  shows "well_formed (updateEnemies dt w)"
proof (rule wf_step[OF assms])
  show "heap_evolves (heap w) (heap (updateEnemies dt w))"
    by (simp add: updateEnemies_def Let_def heap_evolves_fold_updateEnemy)
  show "distinct (enemies (updateEnemies dt w))"
    using assms by (simp add: updateEnemies_def Let_def well_formed_def)
  show "set (enemies (updateEnemies dt w)) \<subseteq> set (enemies w)"
    by (auto simp add: updateEnemies_def Let_def)
qed simp_all

lemma wf_update:
  assumes "well_formed w"
  shows "well_formed (update dt w)"
proof -
  let ?a = "updateReload dt (updateFx dt w)"
  have "well_formed ?a" using assms by (simp add: wf_cong[of ?a w])
  then have "well_formed (updateEnemies dt (updateSpawn dt ?a))"
    by (intro wf_updateEnemies wf_updateSpawn)
  then have "well_formed (updateParticles dt (updateEnemies dt (updateSpawn dt ?a)))"
    by (simp add: wf_cong[of "updateParticles dt (updateEnemies dt (updateSpawn dt ?a))"
          "updateEnemies dt (updateSpawn dt ?a)"])
  with assms show ?thesis by (simp add: update_def)
qed

lemma wf_loop: "well_formed w \<Longrightarrow> well_formed (loop t w)"
proof -
  assume "well_formed w"
  then have "well_formed (w\<lparr>lastT := t\<rparr>)" by (simp add: wf_cong[of "w\<lparr>lastT := t\<rparr>" w])
  then show ?thesis by (simp add: loop_def Let_def wf_update)
qed

lemma run_callback_enemies:
  "enemies (run_callback cb w) = enemies w \<or> enemies (run_callback cb w) = []"
  by (cases cb)
     (auto simp add: run_callback_def advanceWave_def Let_def split_beta split: option.splits)

lemma wf_run_callback:
  assumes "well_formed w"
  shows "well_formed (run_callback cb w)"
proof (rule wf_step[OF assms])
  show "heap_evolves (heap w) (heap (run_callback cb w))" by (rule heap_evolves_run_callback)
  from assms have "distinct (enemies w)" by (simp add: well_formed_def)
  with run_callback_enemies[of cb w] show "distinct (enemies (run_callback cb w))" by auto
  from run_callback_enemies[of cb w] show "set (enemies (run_callback cb w)) \<subseteq> set (enemies w)"
    by auto
qed simp_all

lemma wf_timeout: "well_formed w \<Longrightarrow> well_formed (timeout i w)"
proof -
  assume "well_formed w"
  let ?w = "w\<lparr>pending := take i (pending w) @ drop (Suc i) (pending w)\<rparr>"
  from \<open>well_formed w\<close> have "well_formed ?w" by (simp add: wf_cong[of ?w w])
  with \<open>well_formed w\<close> show ?thesis by (simp add: timeout_def wf_run_callback)
qed

lemma wf_new: "\<forall>i. 0 \<le> r i \<and> r i < 1 \<Longrightarrow> well_formed (new_WesternShooter r)"
  by (simp add: well_formed_def new_WesternShooter_def heap_ok_def slots_distinct_def)

lemma reachable_wf: "reachable w \<Longrightarrow> well_formed w"
  by (induction rule: reachable.induct) (simp_all add: wf_new wf_onTap wf_loop wf_timeout)

text \<open>
  C4. In every reachable state, for each cover slot, at most one enemy of the enemy
  list that is not dead has that slot as its cover-slot identifier; and from a
  reachable state a spawn, an enemy update, damage to an enemy, a wave advance and a
  restart each lead to a state where this holds again.
\<close>
theorem one_enemy_per_cover_slot:
  assumes "reachable w"
  shows "(\<forall>c. slotCount c w \<le> 1) \<and>
    (\<forall>c. slotCount c (spawnEnemy w) \<le> 1) \<and>
    (\<forall>c. slotCount c (updateEnemy a dt w) \<le> 1) \<and>
    (\<forall>c. slotCount c (damageEnemy a w) \<le> 1) \<and>
    (\<forall>c. slotCount c (advanceWave w) \<le> 1) \<and>
    (\<forall>c. slotCount c (startGame w) \<le> 1)"
proof -
  from assms have w: "well_formed w" by (rule reachable_wf)
  show ?thesis
    by (intro conjI allI wf_slotCount w wf_spawnEnemy wf_updateEnemy wf_damageEnemy
        wf_advanceWave wf_startGame)
qed

theorem one_enemy_per_cover_slot_witness:
  "reachable w_spawned \<and> slotCount 2 w_spawned = 1 \<and> (\<forall>c. slotCount c w_spawned \<le> 1) \<and>
   (\<forall>c. slotCount c (spawnEnemy w_spawned) \<le> 1) \<and>
   (\<forall>c. slotCount c (damageEnemy 0 w_spawned) \<le> 1)"
  using one_enemy_per_cover_slot[OF reachable_w_spawned, of 0 0]
  by (simp add: reachable_w_spawned slotCount_def enemyObjs_def w_spawned_facts e_spawned_simps)

subsection \<open>A dead enemy's last frames\<close>














subsection \<open>The frame clock\<close>

lemma lastT_helpers [simp]:
  "lastT (snd (rand lo hi w)) = lastT w"
  "lastT (pushParticle p w) = lastT w"
  "lastT (setTimeout cb ms w) = lastT w"
  "lastT (setEnemy a e w) = lastT w"
  by (simp_all add: rand_def random_def pushParticle_def setTimeout_def setEnemy_def)

lemma lastT_blood [simp]: "lastT (blood n c_x c_y w) = lastT w"
  by (induction n arbitrary: w) (simp_all add: split_beta)

lemma lastT_damageEnemy [simp]: "lastT (damageEnemy a w) = lastT w"
  by (simp add: damageEnemy_def Let_def split_beta split: option.splits)

lemma lastT_fireAt [simp]: "lastT (fireAt x y w) = lastT w"
  by (simp add: fireAt_def Let_def fireLoop_find split: option.splits)

lemma lastT_enemyShoot [simp]: "lastT (enemyShoot a w) = lastT w"
  by (simp add: enemyShoot_def Let_def split: option.splits)

lemma lastT_updateEnemy [simp]: "lastT (updateEnemy a dt w) = lastT w"
  by (simp add: updateEnemy_def Let_def split_beta split: option.splits phase.splits)

lemma lastT_fold_updateEnemy [simp]: "lastT (fold (\<lambda>a. updateEnemy a dt) as w) = lastT w"
  by (induction as arbitrary: w) simp_all

lemma lastT_spawnEnemy [simp]: "lastT (spawnEnemy w) = lastT w"
  by (simp add: spawnEnemy_def random_def Let_def split_beta setEnemy_def)

lemma lastT_steps [simp]:
  "lastT (updateFx dt w) = lastT w"
  "lastT (updateReload dt w) = lastT w"
  "lastT (updateParticles dt w) = lastT w"
  "lastT (takeDamage w) = lastT w"
  "lastT (triggerReload w) = lastT w"
  "lastT (advanceWave w) = lastT w"
  "lastT (startGame w) = lastT w"
  by (simp_all add: updateFx_def updateReload_def updateParticles_def takeDamage_def
      triggerReload_def advanceWave_def startGame_def Let_def)

lemma lastT_updateSpawn [simp]: "lastT (updateSpawn dt w) = lastT w"
  by (simp add: updateSpawn_def Let_def split_beta)

lemma lastT_updateEnemies [simp]: "lastT (updateEnemies dt w) = lastT w"
  by (simp add: updateEnemies_def Let_def)

lemma lastT_update [simp]: "lastT (update dt w) = lastT w"
  by (simp add: update_def)

lemma lastT_loop [simp]: "lastT (loop t w) = t"
  by (simp add: loop_def Let_def)

lemma lastT_onTap [simp]: "lastT (onTap x y w) = lastT w"
  by (simp add: onTap_def)

lemma lastT_run_callback [simp]: "lastT (run_callback cb w) = lastT w"
  by (cases cb) (simp_all add: run_callback_def split_beta split: option.splits)

lemma lastT_timeout [simp]: "lastT (timeout i w) = lastT w"
  by (simp add: timeout_def)

subsection \<open>Events that leave a dead enemy alone\<close>




















end
